theory Spec2Isabelle
  imports Main "HOL-Library.Sublist"
begin

unbundle bit_operations_syntax

section \<open>Python string primitives used by apkpatcher3.py\<close>

text \<open>
  Python strings are modelled as \<^typ>\<open>string\<close>. The functions below embed the string
  operations that \<^verbatim>\<open>apkpatcher3.py\<close> calls: the membership test \<^verbatim>\<open>sub in s\<close>,
  \<^verbatim>\<open>str.find\<close>, the slices \<^verbatim>\<open>s[0:k]\<close> and \<^verbatim>\<open>s[k:]\<close>, \<^verbatim>\<open>str.replace\<close>
  and \<^verbatim>\<open>os.path.join\<close>.
\<close>

text \<open>\<^verbatim>\<open>sub in s\<close>: some position of \<open>s\<close> starts with \<open>sub\<close>.\<close>

fun py_in :: "string \<Rightarrow> string \<Rightarrow> bool" where
  "py_in sub [] = (sub = [])"
| "py_in sub (c # cs) = (prefix sub (c # cs) \<or> py_in sub cs)"

text \<open>The lowest offset at which \<open>sub\<close> starts in \<open>s\<close>, if there is one.\<close>

fun find_first :: "string \<Rightarrow> string \<Rightarrow> nat option" where
  "find_first sub [] = (if sub = [] then Some 0 else None)"
| "find_first sub (c # cs) =
     (if prefix sub (c # cs) then Some 0 else map_option Suc (find_first sub cs))"

text \<open>
  \<^verbatim>\<open>s.find(sub, start, end)\<close>: the bounds are adjusted as for a slice (a negative bound
  counts from the end, the end is cut at the length), the match has to lie inside
  \<^verbatim>\<open>s[start:end]\<close>, and the result is the lowest index in \<open>s\<close> or \<open>-1\<close>.
\<close>

definition py_find :: "string \<Rightarrow> string \<Rightarrow> int \<Rightarrow> int \<Rightarrow> int" where
  "py_find s sub start stop =
     (let n = int (length s);
          a = (if start < 0 then max (start + n) 0 else start);
          b = (if stop < 0 then max (stop + n) 0 else min stop n)
      in if b < a then - 1
         else (case find_first sub (drop (nat a) (take (nat b) s)) of
                 None \<Rightarrow> - 1
               | Some i \<Rightarrow> a + int i))"

text \<open>\<^verbatim>\<open>s.find(sub)\<close> and \<^verbatim>\<open>s.find(sub, start)\<close>: the missing bounds are the whole text.\<close>

definition py_find0 :: "string \<Rightarrow> string \<Rightarrow> int" where
  "py_find0 s sub = py_find s sub 0 (int (length s))"

definition py_find_from :: "string \<Rightarrow> string \<Rightarrow> int \<Rightarrow> int" where
  "py_find_from s sub start = py_find s sub start (int (length s))"

text \<open>\<^verbatim>\<open>s[0:k]\<close> (also written \<^verbatim>\<open>s[:k]\<close>) and \<^verbatim>\<open>s[k:]\<close>.\<close>

definition py_slice_to :: "string \<Rightarrow> int \<Rightarrow> string" where
  "py_slice_to s k = (if k < 0 then take (nat (int (length s) + k)) s else take (nat k) s)"

definition py_slice_from :: "string \<Rightarrow> int \<Rightarrow> string" where
  "py_slice_from s k = (if k < 0 then drop (nat (int (length s) + k)) s else drop (nat k) s)"

text \<open>
  \<^verbatim>\<open>s.replace(old, new)\<close>: every occurrence of \<open>old\<close>, found from left to right without
  overlap, becomes \<open>new\<close>; an empty \<open>old\<close> matches before every character and at the end.
\<close>

function py_replace :: "string \<Rightarrow> string \<Rightarrow> string \<Rightarrow> string" where
  "py_replace s old new =
     (if old = [] then new @ concat (map (\<lambda>c. c # new) s)
      else if s = [] then []
      else if prefix old s then new @ py_replace (drop (length old) s) old new
      else hd s # py_replace (tl s) old new)"
  by pat_completeness auto
termination
  by (relation "measure (\<lambda>(s, old, new). length s)") auto

declare py_replace.simps [simp del]

text \<open>\<^verbatim>\<open>os.path.join(a, b)\<close> of \<^verbatim>\<open>posixpath\<close>, for two arguments.\<close>

definition os_path_join :: "string \<Rightarrow> string \<Rightarrow> string" where
  "os_path_join a b =
     (if prefix ''/'' b then b
      else if a = [] \<or> last a = CHR ''/'' then a @ b
      else a @ ''/'' @ b)"


section \<open>The smali injector: \<^verbatim>\<open>Patcher.insert_frida_loader\<close>\<close>

text \<open>
  The two snippets, as the source writes them: a triple-quoted template in which the
  placeholder is replaced by the library name.
\<close>

definition partial_injection_template :: string where
  "partial_injection_template =
     ''\<newline>'' @
     ''    const-string v0, \"<LIBFRIDA>\"\<newline>'' @
     ''\<newline>'' @
     ''    invoke-static {v0}, Ljava/lang/System;->loadLibrary(Ljava/lang/String;)V\<newline>'' @
     ''\<newline>'' @
     ''        ''"

definition full_injection_template :: string where
  "full_injection_template =
     ''\<newline>'' @
     ''.method static constructor <clinit>()V\<newline>'' @
     ''    .locals 1\<newline>'' @
     ''\<newline>'' @
     ''    .prologue\<newline>'' @
     ''    const-string v0, \"<LIBFRIDA>\"\<newline>'' @
     ''\<newline>'' @
     ''    invoke-static {v0}, Ljava/lang/System;->loadLibrary(Ljava/lang/String;)V\<newline>'' @
     ''\<newline>'' @
     ''    return-void\<newline>'' @
     ''.end method\<newline>'' @
     ''        ''"

definition partial_injection_code :: "string \<Rightarrow> string" where
  "partial_injection_code frida_lib_name =
     py_replace partial_injection_template ''<LIBFRIDA>'' frida_lib_name"

definition full_injection_code :: "string \<Rightarrow> string" where
  "full_injection_code frida_lib_name =
     py_replace full_injection_template ''<LIBFRIDA>'' frida_lib_name"

text \<open>
  The function reads the class file, prints one message and either returns \<^verbatim>\<open>False\<close>
  without writing, or overwrites the file and returns \<^verbatim>\<open>True\<close>. The model passes the
  file's text as the state: the result holds the returned value, the message printed
  (\<^verbatim>\<open>print_info\<close> or \<^verbatim>\<open>print_warn\<close>) and the text of the file afterwards.
\<close>

datatype loader_message =
    AlreadyInEntrypoint   \<comment> \<open>\<^verbatim>\<open>The frida-gadget is already in the entrypoint. Skipping...\<close>\<close>
  | NoDirectMethods       \<comment> \<open>\<^verbatim>\<open>Could not find direct methods.\<close>\<close>
  | NoConstructorEnd      \<comment> \<open>\<^verbatim>\<open>Could not find the end of class constructor.\<close>\<close>
  | NoPrologue            \<comment> \<open>\<^verbatim>\<open>Could not find the .prologue of class constructor.\<close>\<close>
  | LoaderInjected        \<comment> \<open>\<^verbatim>\<open>Frida loader was injected in the entrypoint smali file!\<close>\<close>

record loader_result =
  returned :: bool
  message :: loader_message
  file_content :: string

definition skipped :: "loader_message \<Rightarrow> string \<Rightarrow> loader_result" where
  "skipped m content = \<lparr>returned = False, message = m, file_content = content\<rparr>"

definition written :: "string \<Rightarrow> loader_result" where
  "written new_content =
     \<lparr>returned = True, message = LoaderInjected, file_content = new_content\<rparr>"

text \<open>
  The comparisons \<^verbatim>\<open>index is -1\<close> of the source are equalities here: CPython keeps one
  object for the integer \<open>-1\<close>.
\<close>

definition insert_frida_loader :: "string \<Rightarrow> string \<Rightarrow> loader_result" where
  "insert_frida_loader content frida_lib_name =
     (if py_in ''frida-gadget'' content then skipped AlreadyInEntrypoint content
      else
        let direct_methods_start_index = py_find0 content ''# direct methods'';
            direct_methods_end_index = py_find0 content ''# virtual methods''
        in
        if direct_methods_start_index = - 1 \<or> direct_methods_end_index = - 1
        then skipped NoDirectMethods content
        else
          let class_constructor_start_index =
                py_find content ''.method static constructor <clinit>()V''
                  direct_methods_start_index direct_methods_end_index;
              has_class_constructor = (class_constructor_start_index \<noteq> - 1);
              class_constructor_end_index =
                (if has_class_constructor
                 then py_find content ''.end method''
                        class_constructor_start_index direct_methods_end_index
                 else - 1)
          in
          if has_class_constructor \<and> class_constructor_end_index = - 1
          then skipped NoConstructorEnd content
          else
            let prologue_start_index =
                  (if has_class_constructor
                   then py_find content ''.prologue''
                          class_constructor_start_index class_constructor_end_index
                   else - 1)
            in
            if has_class_constructor \<and> prologue_start_index = - 1
            then skipped NoPrologue content
            else
              let prologue_end_index =
                    (if has_class_constructor \<and> prologue_start_index > - 1
                     then prologue_start_index + int (length ''.prologue'') + 1
                     else - 1)
              in
              if has_class_constructor
              then written (py_slice_to content prologue_end_index
                            @ partial_injection_code frida_lib_name
                            @ py_slice_from content prologue_end_index)
              else
                let tmp_index =
                      direct_methods_start_index + int (length ''# direct methods'') + 1
                in written (py_slice_to content tmp_index
                            @ full_injection_code frida_lib_name
                            @ py_slice_from content tmp_index))"


section \<open>The manifest permission injector: \<^verbatim>\<open>Patcher.inject_permission_manifest\<close>\<close>

text \<open>
  The function reads \<^verbatim>\<open>AndroidManifest.xml\<close>, and either returns \<^verbatim>\<open>False\<close> without
  writing or overwrites the file and falls off its end (returning \<^verbatim>\<open>None\<close>). The model
  passes the manifest text as the state; the returned value is \<open>Some False\<close> or \<open>None\<close>.
\<close>

definition permission_tag :: "string \<Rightarrow> string" where
  "permission_tag permission = ''<uses-permission android:name=\"'' @ permission @ ''\"/>''"

definition inject_permission_manifest :: "string \<Rightarrow> string \<Rightarrow> bool option \<times> string" where
  "inject_permission_manifest manifest_content permission =
     (let start_manifest_tag = py_find0 manifest_content ''<manifest ''
      in
      if start_manifest_tag = - 1 then (Some False, manifest_content)
      else
        let end_manifest_tag = py_find_from manifest_content ''>'' start_manifest_tag
        in
        if end_manifest_tag = - 1 then (Some False, manifest_content)
        else
          (None,
           py_slice_to manifest_content (end_manifest_tag + 1) @ ''\<newline>''
           @ ''    ''
           @ permission_tag permission
           @ py_slice_from manifest_content (end_manifest_tag + 1)))"


section \<open>The architecture resolver: \<^verbatim>\<open>Patcher.get_arch_by_gadget\<close>\<close>

definition ARCH_ARM :: string where "ARCH_ARM = ''arm''"
definition ARCH_ARM64 :: string where "ARCH_ARM64 = ''arm64''"
definition ARCH_X86 :: string where "ARCH_X86 = ''x86''"
definition ARCH_X64 :: string where "ARCH_X64 = ''x64''"

definition get_arch_by_gadget :: "string \<Rightarrow> string option" where
  "get_arch_by_gadget gadget_path =
     (if py_in ''arm'' gadget_path \<and> \<not> py_in ''64'' gadget_path then Some ARCH_ARM
      else if py_in ''arm64'' gadget_path then Some ARCH_ARM64
      else if py_in ''i386'' gadget_path
              \<or> (py_in ''x86'' gadget_path \<and> \<not> py_in ''64'' gadget_path) then Some ARCH_X86
      else if py_in ''x86_64'' gadget_path then Some ARCH_X64
      else None)"


section \<open>The file system\<close>

text \<open>
  The payload installer works on the file system through \<^verbatim>\<open>os.path.isdir\<close>,
  \<^verbatim>\<open>os.path.isfile\<close>, \<^verbatim>\<open>os.makedirs\<close>, \<^verbatim>\<open>os.remove\<close> and \<^verbatim>\<open>shutil.copyfile\<close>.
  The file system is a tree without links: a current directory and a map from absolute
  paths, given as lists of names, to directories and regular files with their contents.
  The root is a directory. An operation that raises returns the error and the file system
  as it is at that moment.
\<close>

datatype os_error =
  FileNotFoundError | FileExistsError | IsADirectoryError | NotADirectoryError | SameFileError

datatype node = Dir | File string

record filesystem =
  cwd :: "string list"
  nodes :: "string list \<Rightarrow> node option"

text \<open>The names of a path, between slashes.\<close>

fun path_parts :: "string \<Rightarrow> string \<Rightarrow> string list" where
  "path_parts acc [] = (if acc = [] then [] else [acc])"
| "path_parts acc (c # cs) =
     (if c = CHR ''/'' then (if acc = [] then [] else [acc]) @ path_parts [] cs
      else path_parts (acc @ [c]) cs)"

definition walk :: "string list \<Rightarrow> string \<Rightarrow> string list" where
  "walk dir name =
     (if name = ''.'' then dir else if name = ''..'' then butlast dir else dir @ [name])"

definition resolve :: "filesystem \<Rightarrow> string \<Rightarrow> string list" where
  "resolve fs p = foldl walk (if prefix ''/'' p then [] else cwd fs) (path_parts [] p)"

text \<open>
  Looking a resolved path up goes down from the root one name at a time: a missing name
  gives \<open>FileNotFoundError\<close>, a regular file in the place of a directory
  \<open>NotADirectoryError\<close>.
\<close>

fun lookup_from ::
  "(string list \<Rightarrow> node option) \<Rightarrow> string list \<Rightarrow> string list \<Rightarrow> os_error + node" where
  "lookup_from m d [] = Inr Dir"
| "lookup_from m d (c # cs) =
     (case m (d @ [c]) of
        None \<Rightarrow> Inl FileNotFoundError
      | Some (File x) \<Rightarrow> (if cs = [] then Inr (File x) else Inl NotADirectoryError)
      | Some Dir \<Rightarrow> lookup_from m (d @ [c]) cs)"

definition stat :: "filesystem \<Rightarrow> string \<Rightarrow> os_error + node" where
  "stat fs p =
     (if p = [] then Inl FileNotFoundError else lookup_from (nodes fs) [] (resolve fs p))"

definition os_path_isdir :: "filesystem \<Rightarrow> string \<Rightarrow> bool" where
  "os_path_isdir fs p = (stat fs p = Inr Dir)"

definition os_path_isfile :: "filesystem \<Rightarrow> string \<Rightarrow> bool" where
  "os_path_isfile fs p = (case stat fs p of Inr (File x) \<Rightarrow> True | _ \<Rightarrow> False)"

text \<open>\<^verbatim>\<open>os.makedirs(name)\<close>: the missing directories are made from the top down.\<close>

fun mkdir_chain ::
  "(string list \<Rightarrow> node option) \<Rightarrow> string list \<Rightarrow> string list \<Rightarrow> (string list \<Rightarrow> node option)" where
  "mkdir_chain m d [] = m"
| "mkdir_chain m d (c # cs) = mkdir_chain (m(d @ [c] \<mapsto> Dir)) (d @ [c]) cs"

fun makedirs_from ::
  "(string list \<Rightarrow> node option) \<Rightarrow> string list \<Rightarrow> string list
     \<Rightarrow> os_error + (string list \<Rightarrow> node option)" where
  "makedirs_from m d [] = Inl FileExistsError"
| "makedirs_from m d (c # cs) =
     (case m (d @ [c]) of
        None \<Rightarrow> Inr (mkdir_chain m d (c # cs))
      | Some (File x) \<Rightarrow> Inl (if cs = [] then FileExistsError else NotADirectoryError)
      | Some Dir \<Rightarrow> makedirs_from m (d @ [c]) cs)"

definition os_makedirs :: "filesystem \<Rightarrow> string \<Rightarrow> (os_error \<times> filesystem) + filesystem" where
  "os_makedirs fs name =
     (if name = [] then Inl (FileNotFoundError, fs)
      else (case makedirs_from (nodes fs) [] (resolve fs name) of
              Inl e \<Rightarrow> Inl (e, fs)
            | Inr m \<Rightarrow> Inr (fs\<lparr>nodes := m\<rparr>)))"

text \<open>\<^verbatim>\<open>os.remove(path)\<close>: removes a regular file.\<close>

definition os_remove :: "filesystem \<Rightarrow> string \<Rightarrow> (os_error \<times> filesystem) + filesystem" where
  "os_remove fs p =
     (case stat fs p of
        Inl e \<Rightarrow> Inl (e, fs)
      | Inr Dir \<Rightarrow> Inl (IsADirectoryError, fs)
      | Inr (File x) \<Rightarrow> Inr (fs\<lparr>nodes := (nodes fs)(resolve fs p := None)\<rparr>))"

text \<open>
  \<^verbatim>\<open>shutil.copyfile(src, dst)\<close>: refuses to copy a file onto itself, opens the source
  for reading, then opens the destination for writing (which creates it in an existing
  directory, or truncates it) and copies the contents.
\<close>

definition shutil_copyfile ::
  "filesystem \<Rightarrow> string \<Rightarrow> string \<Rightarrow> (os_error \<times> filesystem) + filesystem" where
  "shutil_copyfile fs src dst =
     (if \<not> isl (stat fs src) \<and> \<not> isl (stat fs dst) \<and> resolve fs src = resolve fs dst
      then Inl (SameFileError, fs)
      else
        (case stat fs src of
           Inl e \<Rightarrow> Inl (e, fs)
         | Inr Dir \<Rightarrow> Inl (IsADirectoryError, fs)
         | Inr (File content) \<Rightarrow>
             (let wrote = fs\<lparr>nodes := (nodes fs)(resolve fs dst \<mapsto> File content)\<rparr>
              in case stat fs dst of
                   Inr Dir \<Rightarrow> Inl (IsADirectoryError, fs)
                 | Inr (File old) \<Rightarrow> Inr wrote
                 | Inl FileNotFoundError \<Rightarrow>
                     (if dst \<noteq> [] \<and>
                         lookup_from (nodes fs) [] (butlast (resolve fs dst)) = Inr Dir
                      then Inr wrote else Inl (FileNotFoundError, fs))
                 | Inl e \<Rightarrow> Inl (e, fs))))"


section \<open>The directory planner: \<^verbatim>\<open>Patcher.create_lib_arch_folders\<close>\<close>

text \<open>The idiom \<^verbatim>\<open>if not os.path.isdir(p): os.makedirs(p)\<close>.\<close>

definition ensure_dir :: "filesystem \<Rightarrow> string \<Rightarrow> (os_error \<times> filesystem) + filesystem" where
  "ensure_dir fs p = (if \<not> os_path_isdir fs p then os_makedirs fs p else Inr fs)"

text \<open>
  The architecture is a string or \<^verbatim>\<open>None\<close>, as \<^verbatim>\<open>get_arch_by_gadget\<close> returns it.
\<close>

definition create_lib_arch_folders ::
  "filesystem \<Rightarrow> string \<Rightarrow> string option
     \<Rightarrow> (os_error \<times> filesystem) + (string list \<times> filesystem)" where
  "create_lib_arch_folders fs base_path arch =
     (let libs_path = os_path_join base_path ''lib/''
      in case ensure_dir fs libs_path of
           Inl e \<Rightarrow> Inl e
         | Inr fs1 \<Rightarrow>
             (let sub_dir =
                    (if arch = Some ARCH_ARM then Some (os_path_join libs_path ''armeabi'')
                     else if arch = Some ARCH_ARM64 then Some (os_path_join libs_path ''arm64-v8a'')
                     else if arch = Some ARCH_X86 then Some (os_path_join libs_path ''x86'')
                     else if arch = Some ARCH_X64 then Some (os_path_join libs_path ''x86_64'')
                     else None);
                  sub_dir_2 = os_path_join libs_path ''armeabi-v7a''
              in case sub_dir of
                   None \<Rightarrow> Inr ([], fs1)
                 | Some sub_dir \<Rightarrow>
                     (case ensure_dir fs1 sub_dir of
                        Inl e \<Rightarrow> Inl e
                      | Inr fs2 \<Rightarrow>
                          (case (if arch = Some ARCH_ARM then ensure_dir fs2 sub_dir_2
                                 else Inr fs2) of
                             Inl e \<Rightarrow> Inl e
                           | Inr fs3 \<Rightarrow>
                               (if arch = Some ARCH_ARM then Inr ([sub_dir, sub_dir_2], fs3)
                                else Inr ([sub_dir], fs3))))))"


section \<open>The payload installer: \<^verbatim>\<open>delete_existing_gadget\<close> and \<^verbatim>\<open>insert_frida_lib\<close>\<close>

definition DEFAULT_GADGET_NAME :: string where "DEFAULT_GADGET_NAME = ''libfrida-gadget.so''"
definition DEFAULT_CONFIG_NAME :: string where
  "DEFAULT_CONFIG_NAME = ''libfrida-gadget.config.so''"
definition DEFAULT_HOOKFILE_NAME :: string where "DEFAULT_HOOKFILE_NAME = ''libhook.js.so''"

definition CONFIG_BIT :: int where "CONFIG_BIT = push_bit 0 1"
definition AUTOLOAD_BIT :: int where "AUTOLOAD_BIT = push_bit 1 1"

definition delete_existing_gadget ::
  "filesystem \<Rightarrow> string \<Rightarrow> int \<Rightarrow> (os_error \<times> filesystem) + filesystem" where
  "delete_existing_gadget fs arch_folder delete_custom_files =
     (let gadget_path = os_path_join arch_folder DEFAULT_GADGET_NAME
      in case (if os_path_isfile fs gadget_path then os_remove fs gadget_path else Inr fs) of
           Inl e \<Rightarrow> Inl e
         | Inr fs1 \<Rightarrow>
             (if delete_custom_files \<noteq> 0
              then
                let config_file_path = os_path_join arch_folder DEFAULT_CONFIG_NAME;
                    hookfile_path = os_path_join arch_folder DEFAULT_HOOKFILE_NAME
                in (case os_remove fs1 config_file_path of
                      Inl e \<Rightarrow> Inl e
                    | Inr fs2 \<Rightarrow> os_remove fs2 hookfile_path)
              else Inr fs1))"

text \<open>
  An optional path argument is \<^verbatim>\<open>None\<close> or a string; \<^verbatim>\<open>if path:\<close> holds for a string
  that is not empty.
\<close>

definition truthy :: "string option \<Rightarrow> bool" where
  "truthy p = (case p of None \<Rightarrow> False | Some s \<Rightarrow> s \<noteq> [])"

text \<open>\<^verbatim>\<open>shutil.copyfile(path, target)\<close> under \<^verbatim>\<open>if path:\<close>.\<close>

definition copy_if_given ::
  "filesystem \<Rightarrow> string option \<Rightarrow> string \<Rightarrow> (os_error \<times> filesystem) + filesystem" where
  "copy_if_given fs p target =
     (case p of
        None \<Rightarrow> Inr fs
      | Some s \<Rightarrow> (if s \<noteq> [] then shutil_copyfile fs s target else Inr fs))"

text \<open>The loop \<^verbatim>\<open>for folder in arch_folders\<close> of \<^verbatim>\<open>insert_frida_lib\<close>.\<close>

fun insert_frida_lib_loop ::
  "filesystem \<Rightarrow> string list \<Rightarrow> string \<Rightarrow> string option \<Rightarrow> string option
     \<Rightarrow> (os_error \<times> filesystem) + filesystem" where
  "insert_frida_lib_loop fs [] gadget_path config_file_path auto_load_script_path = Inr fs"
| "insert_frida_lib_loop fs (folder # folders) gadget_path config_file_path
       auto_load_script_path =
     (case delete_existing_gadget fs folder
             (if truthy config_file_path \<and> truthy auto_load_script_path
              then CONFIG_BIT OR AUTOLOAD_BIT
              else if truthy config_file_path \<and> \<not> truthy auto_load_script_path
              then CONFIG_BIT
              else if truthy auto_load_script_path \<and> \<not> truthy config_file_path
              then AUTOLOAD_BIT
              else 0) of
        Inl e \<Rightarrow> Inl e
      | Inr fs1 \<Rightarrow>
          (let target_gadget_path = os_path_join folder DEFAULT_GADGET_NAME
           in case shutil_copyfile fs1 gadget_path target_gadget_path of
                Inl e \<Rightarrow> Inl e
              | Inr fs2 \<Rightarrow>
                  (case copy_if_given fs2 config_file_path
                          (py_replace target_gadget_path ''.so'' ''.config.so'') of
                     Inl e \<Rightarrow> Inl e
                   | Inr fs3 \<Rightarrow>
                       (case copy_if_given fs3 auto_load_script_path
                               (py_replace target_gadget_path DEFAULT_GADGET_NAME
                                  DEFAULT_HOOKFILE_NAME) of
                          Inl e \<Rightarrow> Inl e
                        | Inr fs4 \<Rightarrow>
                            insert_frida_lib_loop fs4 folders gadget_path config_file_path
                              auto_load_script_path))))"

definition insert_frida_lib ::
  "filesystem \<Rightarrow> string \<Rightarrow> string \<Rightarrow> string option \<Rightarrow> string option
     \<Rightarrow> (os_error \<times> filesystem) + (bool \<times> filesystem)" where
  "insert_frida_lib fs base_path gadget_path config_file_path auto_load_script_path =
     (let arch = get_arch_by_gadget gadget_path
      in case create_lib_arch_folders fs base_path arch of
           Inl e \<Rightarrow> Inl e
         | Inr (arch_folders, fs1) \<Rightarrow>
             (if arch_folders = [] then Inr (False, fs1)
              else (case insert_frida_lib_loop fs1 arch_folders gadget_path config_file_path
                           auto_load_script_path of
                      Inl e \<Rightarrow> Inl e
                    | Inr fs2 \<Rightarrow> Inr (True, fs2))))"


section \<open>Notions used in the statements\<close>

text \<open>
  \<open>occurs sub s i b\<close>: the text \<open>sub\<close> stands at offset \<open>i\<close> of \<open>s\<close> and ends at or before
  the bound \<open>b\<close> (and inside \<open>s\<close>).
\<close>

definition occurs :: "string \<Rightarrow> string \<Rightarrow> nat \<Rightarrow> int \<Rightarrow> bool" where
  "occurs sub s i b \<longleftrightarrow>
     prefix sub (drop i s) \<and> int (i + length sub) \<le> min b (int (length s))"

text \<open>
  The precedence rule of the architecture resolver as the specification words it, first
  match wins: contains \<^verbatim>\<open>arm64\<close>; contains \<^verbatim>\<open>arm\<close> and not \<^verbatim>\<open>64\<close>; contains \<^verbatim>\<open>x86_64\<close>;
  contains \<^verbatim>\<open>i386\<close>, or \<^verbatim>\<open>x86\<close> without \<^verbatim>\<open>64\<close>; otherwise unknown. The architectures
  are written with the constants of the source (\<open>ARCH_X64\<close> is x86_64).
\<close>

definition ArchitectureResolver_rule :: "string \<Rightarrow> string option" where
  "ArchitectureResolver_rule name =
     (if sublist ''arm64'' name then Some ARCH_ARM64
      else if sublist ''arm'' name \<and> \<not> sublist ''64'' name then Some ARCH_ARM
      else if sublist ''x86_64'' name then Some ARCH_X64
      else if sublist ''i386'' name \<or> (sublist ''x86'' name \<and> \<not> sublist ''64'' name)
      then Some ARCH_X86
      else None)"

text \<open>
  The mapping of the directory planner as the specification gives it, under the library
  root \<^verbatim>\<open>lib/\<close> of the tree: arm32 has \<^verbatim>\<open>armeabi\<close> and \<^verbatim>\<open>armeabi-v7a\<close>, arm64 has
  \<^verbatim>\<open>arm64-v8a\<close>, x86 has \<^verbatim>\<open>x86\<close>, x86_64 has \<^verbatim>\<open>x86_64\<close>, anything else has none.
\<close>

definition library_root :: "string \<Rightarrow> string" where
  "library_root base_path = os_path_join base_path ''lib/''"

definition LibraryDirectorySet :: "string \<Rightarrow> string option \<Rightarrow> string list" where
  "LibraryDirectorySet base_path arch =
     (if arch = Some ''arm''
      then [library_root base_path @ ''armeabi'', library_root base_path @ ''armeabi-v7a'']
      else if arch = Some ''arm64'' then [library_root base_path @ ''arm64-v8a'']
      else if arch = Some ''x86'' then [library_root base_path @ ''x86'']
      else if arch = Some ''x64'' then [library_root base_path @ ''x86_64'']
      else [])"

text \<open>
  \<open>clear_path fs p\<close>: no regular file sits at \<open>p\<close> or at a directory above it, so that
  \<open>p\<close> is a directory or can be made one.
\<close>

definition clear_path :: "filesystem \<Rightarrow> string \<Rightarrow> bool" where
  "clear_path fs p =
     list_all (\<lambda>r. case nodes fs r of Some (File x) \<Rightarrow> False | _ \<Rightarrow> True)
       (prefixes (resolve fs p))"

text \<open>\<open>no_new_entries fs fs'\<close>: every entry of \<open>fs'\<close> is an entry of \<open>fs\<close>, unchanged.\<close>

definition no_new_entries :: "filesystem \<Rightarrow> filesystem \<Rightarrow> bool" where
  "no_new_entries fs fs' \<longleftrightarrow>
     cwd fs' = cwd fs \<and> (\<forall>q n. nodes fs' q = Some n \<longrightarrow> nodes fs q = Some n)"

subsection \<open>Class sources, manifests and trees used as concrete inputs\<close>

definition class_with_initializer :: string where
  "class_with_initializer =
     ''.class public Lcom/example/App;\<newline>'' @
     ''# direct methods\<newline>'' @
     ''.method static constructor <clinit>()V\<newline>'' @
     ''    .prologue\<newline>'' @
     ''    .locals 2\<newline>'' @
     ''    return-void\<newline>'' @
     ''.end method\<newline>'' @
     ''# virtual methods\<newline>''"

definition class_without_initializer :: string where
  "class_without_initializer =
     ''.class public Lcom/example/App;\<newline>'' @
     ''# direct methods\<newline>'' @
     ''.method public constructor <init>()V\<newline>'' @
     ''    return-void\<newline>'' @
     ''.end method\<newline>'' @
     ''# virtual methods\<newline>''"

definition class_without_markers :: string where
  "class_without_markers = ''.class public Lcom/example/App;\<newline># virtual methods\<newline>''"

definition class_with_unterminated_initializer :: string where
  "class_with_unterminated_initializer =
     ''# direct methods\<newline>'' @
     ''.method static constructor <clinit>()V\<newline>'' @
     ''    .prologue\<newline>'' @
     ''# virtual methods\<newline>'' @
     ''.end method\<newline>''"

definition class_with_initializer_without_prologue :: string where
  "class_with_initializer_without_prologue =
     ''# direct methods\<newline>'' @
     ''.method static constructor <clinit>()V\<newline>'' @
     ''    return-void\<newline>'' @
     ''.end method\<newline>'' @
     ''# virtual methods\<newline>''"

definition example_manifest :: string where
  "example_manifest =
     ''<?xml version=\"1.0\"?>\<newline>'' @
     ''<manifest xmlns:android=\"http://schemas.android.com/apk/res/android\">\<newline>'' @
     ''    <application/>\<newline>'' @
     ''</manifest>\<newline>''"

definition INTERNET_PERMISSION :: string where
  "INTERNET_PERMISSION = ''android.permission.INTERNET''"

text \<open>
  A freshly unpacked application at \<^verbatim>\<open>/tmp/app\<close> without a \<^verbatim>\<open>lib\<close> folder, and the
  payload, a configuration file and a script in \<^verbatim>\<open>/work\<close>.
\<close>

definition fresh_tree :: filesystem where
  "fresh_tree =
     \<lparr>cwd = [''work''],
      nodes = map_of
        [([''tmp''], Dir),
         ([''tmp'', ''app''], Dir),
         ([''work''], Dir),
         ([''work'', ''frida-gadget-x86.so''], File ''GADGET''),
         ([''work'', ''gadget.config''], File ''CONFIG''),
         ([''work'', ''hook.js''], File ''HOOK'')]\<rparr>"

text \<open>The same application with \<^verbatim>\<open>lib/x86\<close> made and nothing installed in it.\<close>

definition planned_tree :: filesystem where
  "planned_tree =
     \<lparr>cwd = [''work''],
      nodes = map_of
        [([''tmp''], Dir),
         ([''tmp'', ''app''], Dir),
         ([''tmp'', ''app'', ''lib''], Dir),
         ([''tmp'', ''app'', ''lib'', ''x86''], Dir),
         ([''work''], Dir),
         ([''work'', ''frida-gadget-x86.so''], File ''GADGET''),
         ([''work'', ''gadget.config''], File ''CONFIG''),
         ([''work'', ''hook.js''], File ''HOOK'')]\<rparr>"

text \<open>An application patched before: payload and both companions are in \<^verbatim>\<open>lib/x86\<close>.\<close>

definition patched_tree :: filesystem where
  "patched_tree =
     \<lparr>cwd = [''work''],
      nodes = map_of
        [([''tmp''], Dir),
         ([''tmp'', ''app''], Dir),
         ([''tmp'', ''app'', ''lib''], Dir),
         ([''tmp'', ''app'', ''lib'', ''x86''], Dir),
         ([''tmp'', ''app'', ''lib'', ''x86'', ''libfrida-gadget.so''], File ''OLD GADGET''),
         ([''tmp'', ''app'', ''lib'', ''x86'', ''libfrida-gadget.config.so''], File ''OLD CONFIG''),
         ([''tmp'', ''app'', ''lib'', ''x86'', ''libhook.js.so''], File ''OLD HOOK''),
         ([''work''], Dir),
         ([''work'', ''frida-gadget-x86.so''], File ''GADGET''),
         ([''work'', ''gadget.config''], File ''CONFIG''),
         ([''work'', ''hook.js''], File ''HOOK'')]\<rparr>"

text \<open>
  A patched application unpacked in a directory whose name contains the payload's file
  name, \<^verbatim>\<open>/tmp/libfrida-gadget.so.d\<close>, beside a tree \<^verbatim>\<open>/tmp/libhook.js.so.d\<close>.
\<close>

definition named_tree :: filesystem where
  "named_tree =
     \<lparr>cwd = [''work''],
      nodes = map_of
        [([''tmp''], Dir),
         ([''tmp'', ''libfrida-gadget.so.d''], Dir),
         ([''tmp'', ''libfrida-gadget.so.d'', ''lib''], Dir),
         ([''tmp'', ''libfrida-gadget.so.d'', ''lib'', ''x86''], Dir),
         ([''tmp'', ''libfrida-gadget.so.d'', ''lib'', ''x86'', ''libfrida-gadget.config.so''],
            File ''OLD CONFIG''),
         ([''tmp'', ''libfrida-gadget.so.d'', ''lib'', ''x86'', ''libhook.js.so''],
            File ''OLD HOOK''),
         ([''tmp'', ''libhook.js.so.d''], Dir),
         ([''tmp'', ''libhook.js.so.d'', ''lib''], Dir),
         ([''tmp'', ''libhook.js.so.d'', ''lib'', ''x86''], Dir),
         ([''work''], Dir),
         ([''work'', ''frida-gadget-x86.so''], File ''GADGET''),
         ([''work'', ''hook.js''], File ''HOOK'')]\<rparr>"


section \<open>Facts about the string primitives\<close>

lemma py_in_sublist: "py_in sub s = sublist sub s"
  by (induction s) (auto simp: sublist_Cons_right)

lemma find_first_None_iff: "find_first sub s = None \<longleftrightarrow> \<not> sublist sub s"
  by (induction s) (auto simp: sublist_Cons_right)

lemma find_first_SomeD:
  "find_first sub s = Some i \<Longrightarrow>
     i + length sub \<le> length s \<and> prefix sub (drop i s) \<and> (\<forall>j<i. \<not> prefix sub (drop j s))"
proof (induction s arbitrary: i)
  case Nil
  then show ?case by (simp split: if_splits)
next
  case (Cons c cs)
  show ?case
  proof (cases "prefix sub (c # cs)")
    case True
    with Cons.prems have "i = 0" by simp
    with True show ?thesis using prefix_length_le by fastforce
  next
    case False
    with Cons.prems obtain k where k: "find_first sub cs = Some k" "i = Suc k" by auto
    from Cons.IH[OF k(1)] have ih: "k + length sub \<le> length cs" "prefix sub (drop k cs)"
      "\<forall>j<k. \<not> prefix sub (drop j cs)" by auto
    have "\<forall>j<Suc k. \<not> prefix sub (drop j (c # cs))"
    proof (intro allI impI)
      fix j assume "j < Suc k"
      then show "\<not> prefix sub (drop j (c # cs))"
        using False ih(3) by (cases j) auto
    qed
    with ih k show ?thesis by simp
  qed
qed

lemma prefix_take_iff: "prefix xs (take m ys) \<longleftrightarrow> prefix xs ys \<and> length xs \<le> m"
proof
  assume h: "prefix xs (take m ys)"
  have "prefix xs ys" using h take_is_prefix prefix_order.trans by blast
  moreover have "length xs \<le> m" using prefix_length_le[OF h] by simp
  ultimately show "prefix xs ys \<and> length xs \<le> m" by simp
next
  assume "prefix xs ys \<and> length xs \<le> m"
  then show "prefix xs (take m ys)" by (auto simp: prefix_def)
qed


lemma find_first_window:
  assumes "A \<le> B" "B \<le> length s"
  shows "case find_first sub (drop A (take B s)) of
           None \<Rightarrow> \<forall>i\<ge>A. \<not> (prefix sub (drop i s) \<and> i + length sub \<le> B)
         | Some j \<Rightarrow> prefix sub (drop (A + j) s) \<and> A + j + length sub \<le> B
                     \<and> (\<forall>i. A \<le> i \<and> i < A + j \<longrightarrow> \<not> (prefix sub (drop i s) \<and> i + length sub \<le> B))"
proof -
  let ?w = "drop A (take B s)"
  have win: "prefix sub (drop i ?w) \<longleftrightarrow> prefix sub (drop (A + i) s) \<and> A + i + length sub \<le> B"
    if "A + i \<le> B" for i
  proof -
    have "drop i ?w = take (B - (A + i)) (drop (A + i) s)"
      by (simp add: drop_take add.commute)
    then show ?thesis
      using prefix_take_iff[of sub "B - (A + i)" "drop (A + i) s"] that
      by auto
  qed
  show ?thesis
  proof (cases "find_first sub ?w")
    case None
    then have ns: "\<not> sublist sub ?w" by (simp add: find_first_None_iff)
    have "\<not> (prefix sub (drop i s) \<and> i + length sub \<le> B)" if "A \<le> i" for i
    proof
      assume "prefix sub (drop i s) \<and> i + length sub \<le> B"
      then have "prefix sub (drop (i - A) ?w)" using win[of "i - A"] that by simp
      then have "sublist sub (drop (i - A) ?w)" by (rule prefix_imp_sublist)
      then have "sublist sub ?w" using sublist_drop sublist_order.order_trans by blast
      with ns show False by simp
    qed
    with None show ?thesis by simp
  next
    case (Some j)
    from find_first_SomeD[OF Some]
    have l: "j + length sub \<le> length ?w" and p: "prefix sub (drop j ?w)"
      and m: "\<forall>i<j. \<not> prefix sub (drop i ?w)" by auto
    from l assms have jB: "A + j \<le> B" by simp
    have "\<not> (prefix sub (drop i s) \<and> i + length sub \<le> B)" if "A \<le> i" "i < A + j" for i
    proof -
      have "i - A < j" "A + (i - A) = i" "A + (i - A) \<le> B" using that jB by auto
      then show ?thesis using m win[of "i - A"] by auto
    qed
    with p win[OF jB] Some show ?thesis by simp
  qed
qed

lemma py_find_cases:
  assumes "0 \<le> a" "0 \<le> b"
  shows "(py_find s sub a b = - 1 \<and> (\<forall>i. a \<le> int i \<longrightarrow> \<not> occurs sub s i b))
       \<or> (\<exists>k. py_find s sub a b = int k \<and> a \<le> int k \<and> occurs sub s k b
              \<and> (\<forall>i. a \<le> int i \<and> i < k \<longrightarrow> \<not> occurs sub s i b))"
proof -
  define A where "A = nat a"
  define B where "B = nat (min b (int (length s)))"
  have ab: "a = int A" "min b (int (length s)) = int B" "B \<le> length s"
    using assms by (auto simp: A_def B_def)
  have occ: "occurs sub s i b \<longleftrightarrow> prefix sub (drop i s) \<and> i + length sub \<le> B" for i
    unfolding occurs_def ab(2) by auto
  show ?thesis
  proof (cases "B < A")
    case True
    then have "py_find s sub a b = - 1"
      using assms ab by (simp add: py_find_def Let_def)
    moreover have "\<not> occurs sub s i b" if "a \<le> int i" for i
      using that True ab(1) by (auto simp: occ)
    ultimately show ?thesis by blast
  next
    case False
    then have le: "A \<le> B" by simp
    have pf: "py_find s sub a b =
        (case find_first sub (drop A (take B s)) of None \<Rightarrow> - 1 | Some i \<Rightarrow> a + int i)"
    proof -
      have "\<not> min b (int (length s)) < a" using le assms by (simp add: A_def B_def)
      then show ?thesis using assms by (simp add: py_find_def Let_def A_def B_def)
    qed
    show ?thesis
    proof (cases "find_first sub (drop A (take B s))")
      case None
      with find_first_window[OF le ab(3), of sub]
      have w: "\<forall>i\<ge>A. \<not> (prefix sub (drop i s) \<and> i + length sub \<le> B)" by simp
      have "py_find s sub a b = - 1" using pf None by simp
      moreover have "\<forall>i. a \<le> int i \<longrightarrow> \<not> occurs sub s i b"
        using w ab(1) by (simp add: occ)
      ultimately show ?thesis by blast
    next
      case (Some j)
      with find_first_window[OF le ab(3), of sub]
      have w: "prefix sub (drop (A + j) s)" "A + j + length sub \<le> B"
        "\<forall>i. A \<le> i \<and> i < A + j \<longrightarrow> \<not> (prefix sub (drop i s) \<and> i + length sub \<le> B)"
        by auto
      have "py_find s sub a b = int (A + j)" using pf Some ab(1) by simp
      moreover have "a \<le> int (A + j)" using ab(1) by simp
      moreover have "occurs sub s (A + j) b" using w by (simp add: occ)
      moreover have "\<forall>i. a \<le> int i \<and> i < A + j \<longrightarrow> \<not> occurs sub s i b"
        using w(3) ab(1) by (auto simp: occ)
      ultimately show ?thesis by blast
    qed
  qed
qed

lemma py_find0_absent_iff: "py_find0 s sub = - 1 \<longleftrightarrow> \<not> sublist sub s"
proof -
  have "py_find0 s sub = (case find_first sub s of None \<Rightarrow> - 1 | Some i \<Rightarrow> int i)"
    by (simp add: py_find0_def py_find_def Let_def split: option.splits)
  then show ?thesis by (simp add: find_first_None_iff[symmetric] split: option.splits)
qed


lemma py_find_absent_iff:
  assumes "0 \<le> a" "0 \<le> b"
  shows "py_find s sub a b = - 1 \<longleftrightarrow> (\<forall>i. a \<le> int i \<longrightarrow> \<not> occurs sub s i b)"
  using py_find_cases[OF assms, of s sub] by auto

lemma py_find_found:
  assumes "0 \<le> a" "0 \<le> b" "py_find s sub a b \<noteq> - 1"
  obtains k where "py_find s sub a b = int k" "a \<le> int k" "occurs sub s k b"
    "\<forall>i. a \<le> int i \<and> i < k \<longrightarrow> \<not> occurs sub s i b"
  using py_find_cases[OF assms(1,2), of s sub] assms(3) by auto

lemma py_find_lower:
  assumes "0 \<le> a" "0 \<le> b" "py_find s sub a b \<noteq> - 1"
  shows "a \<le> py_find s sub a b"
  using py_find_cases[OF assms(1,2), of s sub] assms(3) by auto

lemma py_find0_nonneg: "py_find0 s sub \<noteq> - 1 \<Longrightarrow> 0 \<le> py_find0 s sub"
  unfolding py_find0_def using py_find_lower[of 0 "int (length s)" s sub] by simp

lemma occurs_split:
  assumes "occurs sub s k b"
  shows "s = take k s @ sub @ drop (k + length sub) s"
proof -
  from assms have "prefix sub (drop k s)" by (simp add: occurs_def)
  then obtain r where r: "drop k s = sub @ r" by (auto simp: prefix_def)
  then have "drop (k + length sub) s = r"
    by (metis add.commute append_eq_conv_conj drop_drop)
  with r show ?thesis by (metis append_take_drop_id)
qed

lemma occurs_bounds:
  "occurs sub s k b \<Longrightarrow> int (k + length sub) \<le> b \<and> k + length sub \<le> length s"
  by (simp add: occurs_def)

text \<open>The slices taken at the end of a marker, and one character after it.\<close>

lemma splice_after_marker:
  assumes "occurs sub s k b"
  shows "s = take k s @ sub @ drop (k + length sub) s"
    and "length (take k s) = k"
    and "py_slice_to s (int k + int (length sub)) = take k s @ sub"
    and "py_slice_from s (int k + int (length sub)) = drop (k + length sub) s"
    and "py_slice_to s (int k + int (length sub) + 1)
           = take k s @ sub @ take 1 (drop (k + length sub) s)"
    and "py_slice_from s (int k + int (length sub) + 1) = drop 1 (drop (k + length sub) s)"
proof -
  let ?pre = "take k s" and ?post = "drop (k + length sub) s"
  show eq: "s = ?pre @ sub @ ?post" by (rule occurs_split[OF assms])
  from occurs_bounds[OF assms] have le: "k + length sub \<le> length s" by simp
  then show len: "length ?pre = k" by simp
  have t: "take (k + length sub) s = ?pre @ sub"
  proof -
    have "take (k + length sub) s = take (k + length sub) (?pre @ sub @ ?post)"
      using eq by simp
    also have "\<dots> = ?pre @ sub" using len by (simp del: length_take)
    finally show ?thesis .
  qed
  have n2: "nat (int k + int (length sub) + 1) = Suc (k + length sub)" by simp
  show "py_slice_to s (int k + int (length sub)) = ?pre @ sub"
    unfolding py_slice_to_def using t by (simp add: nat_add_distrib)
  show "py_slice_from s (int k + int (length sub)) = ?post"
    unfolding py_slice_from_def by (simp add: nat_add_distrib)
  have "take (Suc (k + length sub)) s = take (k + length sub) s @ take 1 ?post"
    by (metis One_nat_def add.commute plus_1_eq_Suc take_add)
  then show "py_slice_to s (int k + int (length sub) + 1) = ?pre @ sub @ take 1 ?post"
    unfolding py_slice_to_def using t n2 by simp
  show "py_slice_from s (int k + int (length sub) + 1) = drop 1 ?post"
    unfolding py_slice_from_def using n2 by simp
qed

text \<open>The snippets with the library name in place of the placeholder.\<close>

lemma partial_injection_code_eq:
  "partial_injection_code lib =
     ''\<newline>    const-string v0, \"'' @ lib @
     ''\"\<newline>\<newline>    invoke-static {v0}, Ljava/lang/System;->loadLibrary(Ljava/lang/String;)V\<newline>\<newline>        ''"
  unfolding partial_injection_code_def partial_injection_template_def
  by (simp add: py_replace.simps)

lemma full_injection_code_eq:
  "full_injection_code lib =
     ''\<newline>.method static constructor <clinit>()V\<newline>    .locals 1\<newline>\<newline>    .prologue\<newline>    const-string v0, \"''
     @ lib @
     ''\"\<newline>\<newline>    invoke-static {v0}, Ljava/lang/System;->loadLibrary(Ljava/lang/String;)V\<newline>\<newline>    return-void\<newline>.end method\<newline>        ''"
  unfolding full_injection_code_def full_injection_template_def
  by (simp add: py_replace.simps)


lemma insert_frida_loader_cases:
  "(\<exists>m. insert_frida_loader content lib = skipped m content)
   \<or> (\<exists>a b. insert_frida_loader content lib = written (a @ partial_injection_code lib @ b))
   \<or> (\<exists>a b. insert_frida_loader content lib = written (a @ full_injection_code lib @ b))"
  unfolding insert_frida_loader_def Let_def by auto

text \<open>
  With a library name that contains \<^verbatim>\<open>frida-gadget\<close>, as the default name does, a second
  call finds the text of the first one and changes nothing.
\<close>

lemma insert_frida_loader_twice_gadget_name:
  assumes name: "sublist ''frida-gadget'' lib"
  shows "returned (insert_frida_loader (file_content (insert_frida_loader content lib)) lib) = False
       \<and> file_content (insert_frida_loader (file_content (insert_frida_loader content lib)) lib)
           = file_content (insert_frida_loader content lib)
       \<and> (returned (insert_frida_loader content lib) \<longrightarrow>
            message (insert_frida_loader (file_content (insert_frida_loader content lib)) lib)
              = AlreadyInEntrypoint)"
proof -
  have in_partial: "sublist ''frida-gadget'' (a @ partial_injection_code lib @ b)" for a b
  proof -
    have "sublist lib (partial_injection_code lib)"
      unfolding partial_injection_code_eq by (rule sublist_appendI)
    then have "sublist lib (a @ partial_injection_code lib @ b)"
      using sublist_appendI sublist_order.order_trans by blast
    with name show ?thesis using sublist_order.order_trans by blast
  qed
  have in_full: "sublist ''frida-gadget'' (a @ full_injection_code lib @ b)" for a b
  proof -
    have "sublist lib (full_injection_code lib)"
      unfolding full_injection_code_eq by (rule sublist_appendI)
    then have "sublist lib (a @ full_injection_code lib @ b)"
      using sublist_appendI sublist_order.order_trans by blast
    with name show ?thesis using sublist_order.order_trans by blast
  qed
  have again: "sublist ''frida-gadget'' t \<Longrightarrow>
      insert_frida_loader t lib = skipped AlreadyInEntrypoint t" for t
    by (simp add: insert_frida_loader_def py_in_sublist)
  from insert_frida_loader_cases[of content lib] show ?thesis
  proof (elim disjE exE)
    fix m assume r: "insert_frida_loader content lib = skipped m content"
    then show ?thesis by (simp add: skipped_def)
  next
    fix a b assume r: "insert_frida_loader content lib = written (a @ partial_injection_code lib @ b)"
    show ?thesis unfolding r using again[OF in_partial[of a b]]
      by (simp add: written_def skipped_def)
  next
    fix a b assume r: "insert_frida_loader content lib = written (a @ full_injection_code lib @ b)"
    show ?thesis unfolding r using again[OF in_full[of a b]]
      by (simp add: written_def skipped_def)
  qed
qed


section \<open>Facts about the file system\<close>

lemma resolve_cwd: "cwd fs' = cwd fs \<Longrightarrow> resolve fs' p = resolve fs p"
  by (simp add: resolve_def)

lemma mkdir_chain_files:
  "mkdir_chain m d q k = Some (File x) \<Longrightarrow> m k = Some (File x)"
proof (induction q arbitrary: m d)
  case Nil
  then show ?case by simp
next
  case (Cons c cs)
  from Cons.prems have "mkdir_chain (m(d @ [c] \<mapsto> Dir)) (d @ [c]) cs k = Some (File x)"
    by simp
  from Cons.IH[OF this] show ?case by (simp split: if_splits)
qed

lemma makedirs_clear:
  assumes "\<forall>r x. prefix r q \<longrightarrow> m (d @ r) \<noteq> Some (File x)"
  shows "lookup_from m d q = Inr Dir
       \<or> (\<exists>m'. makedirs_from m d q = Inr m' \<and> (\<forall>k x. m' k = Some (File x) \<longrightarrow> m k = Some (File x)))"
  using assms
proof (induction q arbitrary: d)
  case Nil
  then show ?case by simp
next
  case (Cons c cs)
  show ?case
  proof (cases "m (d @ [c])")
    case None
    have "\<forall>k x. mkdir_chain m d (c # cs) k = Some (File x) \<longrightarrow> m k = Some (File x)"
      using mkdir_chain_files by blast
    with None show ?thesis by simp
  next
    case (Some n)
    show ?thesis
    proof (cases n)
      case Dir
      have "\<forall>r x. prefix r cs \<longrightarrow> m ((d @ [c]) @ r) \<noteq> Some (File x)"
      proof (intro allI impI)
        fix r x assume "prefix r cs"
        then have "prefix (c # r) (c # cs)" by simp
        with Cons.prems show "m ((d @ [c]) @ r) \<noteq> Some (File x)" by fastforce
      qed
      from Cons.IH[OF this] Some Dir show ?thesis by simp
    next
      case (File x)
      have "prefix [c] (c # cs)" by simp
      with Cons.prems have "m (d @ [c]) \<noteq> Some (File x)" by blast
      with Some File show ?thesis by simp
    qed
  qed
qed

lemma ensure_dir_clear:
  assumes "p \<noteq> []" "clear_path fs p"
  shows "\<exists>fs'. ensure_dir fs p = Inr fs' \<and> cwd fs' = cwd fs
           \<and> (\<forall>k x. nodes fs' k = Some (File x) \<longrightarrow> nodes fs k = Some (File x))"
proof -
  have "\<forall>r x. prefix r (resolve fs p) \<longrightarrow> nodes fs ([] @ r) \<noteq> Some (File x)"
  proof (intro allI impI)
    fix r x assume "prefix r (resolve fs p)"
    then have "r \<in> set (prefixes (resolve fs p))" by simp
    with assms(2) have "case nodes fs r of Some (File x) \<Rightarrow> False | _ \<Rightarrow> True"
      unfolding clear_path_def list_all_iff by blast
    then show "nodes fs ([] @ r) \<noteq> Some (File x)" by auto
  qed
  from makedirs_clear[OF this]
  consider "lookup_from (nodes fs) [] (resolve fs p) = Inr Dir"
    | m' where "makedirs_from (nodes fs) [] (resolve fs p) = Inr m'"
        "\<forall>k x. m' k = Some (File x) \<longrightarrow> nodes fs k = Some (File x)"
    by blast
  then show ?thesis
  proof cases
    case 1
    then show ?thesis using assms(1) by (simp add: ensure_dir_def os_path_isdir_def stat_def)
  next
    case 2
    then show ?thesis using assms(1)
      by (simp add: ensure_dir_def os_path_isdir_def stat_def os_makedirs_def)
  qed
qed

lemma clear_path_kept:
  assumes "clear_path fs p" "cwd fs' = cwd fs"
    "\<forall>k x. nodes fs' k = Some (File x) \<longrightarrow> nodes fs k = Some (File x)"
  shows "clear_path fs' p"
proof -
  have "case nodes fs' r of Some (File x) \<Rightarrow> False | _ \<Rightarrow> True"
    if "r \<in> set (prefixes (resolve fs p))" for r
  proof -
    from assms(1) that have "case nodes fs r of Some (File x) \<Rightarrow> False | _ \<Rightarrow> True"
      unfolding clear_path_def list_all_iff by blast
    with assms(3) show ?thesis by (auto split: option.splits node.splits)
  qed
  then show ?thesis
    unfolding clear_path_def list_all_iff resolve_cwd[OF assms(2)] by blast
qed

lemma library_root_join: "os_path_join (library_root base_path) ''armeabi'' = library_root base_path @ ''armeabi''"
  "os_path_join (library_root base_path) ''armeabi-v7a'' = library_root base_path @ ''armeabi-v7a''"
  "os_path_join (library_root base_path) ''arm64-v8a'' = library_root base_path @ ''arm64-v8a''"
  "os_path_join (library_root base_path) ''x86'' = library_root base_path @ ''x86''"
  "os_path_join (library_root base_path) ''x86_64'' = library_root base_path @ ''x86_64''"
  "library_root base_path \<noteq> []"
  by (auto simp: library_root_def os_path_join_def)

lemma create_lib_arch_folders_result:
  assumes "create_lib_arch_folders fs base_path arch = Inr (dirs, fs')"
  shows "dirs = LibraryDirectorySet base_path arch"
proof -
  note defs = create_lib_arch_folders_def LibraryDirectorySet_def Let_def
    ARCH_ARM_def ARCH_ARM64_def ARCH_X86_def ARCH_X64_def library_root_def[symmetric]
  consider (arm) "arch = Some ''arm''" | (arm64) "arch = Some ''arm64''"
    | (x86) "arch = Some ''x86''" | (x64) "arch = Some ''x64''"
    | (other) "arch \<noteq> Some ''arm''" "arch \<noteq> Some ''arm64''" "arch \<noteq> Some ''x86''"
        "arch \<noteq> Some ''x64''"
    by blast
  then show ?thesis
  proof cases
    case arm
    with assms show ?thesis by (auto simp: defs library_root_join split: sum.splits)
  next
    case arm64
    with assms show ?thesis by (auto simp: defs library_root_join split: sum.splits)
  next
    case x86
    with assms show ?thesis by (auto simp: defs library_root_join split: sum.splits)
  next
    case x64
    with assms show ?thesis by (auto simp: defs library_root_join split: sum.splits)
  next
    case other
    with assms show ?thesis by (auto simp: defs split: sum.splits)
  qed
qed

lemma create_lib_arch_folders_returns:
  assumes root: "clear_path fs (library_root base_path)"
      and dirs: "list_all (clear_path fs) (LibraryDirectorySet base_path arch)"
  shows "\<exists>fs'. create_lib_arch_folders fs base_path arch
                 = Inr (LibraryDirectorySet base_path arch, fs')"
proof -
  note defs = create_lib_arch_folders_def LibraryDirectorySet_def Let_def
    ARCH_ARM_def ARCH_ARM64_def ARCH_X86_def ARCH_X64_def library_root_def[symmetric]
  from ensure_dir_clear[OF library_root_join(6) root]
  obtain fs1 where fs1: "ensure_dir fs (library_root base_path) = Inr fs1" "cwd fs1 = cwd fs"
    "\<forall>k x. nodes fs1 k = Some (File x) \<longrightarrow> nodes fs k = Some (File x)" by blast
  have one: "\<exists>fs2. ensure_dir fs1 (library_root base_path @ abi) = Inr fs2 \<and> cwd fs2 = cwd fs
              \<and> (\<forall>k x. nodes fs2 k = Some (File x) \<longrightarrow> nodes fs k = Some (File x))"
    if "clear_path fs (library_root base_path @ abi)" for abi
  proof -
    have "library_root base_path @ abi \<noteq> []" using library_root_join(6) by simp
    from ensure_dir_clear[OF this clear_path_kept[OF that fs1(2,3)]] fs1(2,3)
    show ?thesis by (metis (no_types, lifting))
  qed
  consider (arm) "arch = Some ''arm''" | (arm64) "arch = Some ''arm64''"
    | (x86) "arch = Some ''x86''" | (x64) "arch = Some ''x64''"
    | (other) "arch \<noteq> Some ''arm''" "arch \<noteq> Some ''arm64''" "arch \<noteq> Some ''x86''"
        "arch \<noteq> Some ''x64''"
    by blast
  then show ?thesis
  proof cases
    case arm
    with dirs have c: "clear_path fs (library_root base_path @ ''armeabi'')"
      "clear_path fs (library_root base_path @ ''armeabi-v7a'')"
      by (simp_all add: LibraryDirectorySet_def)
    from one[OF c(1)] obtain fs2 where fs2:
      "ensure_dir fs1 (library_root base_path @ ''armeabi'') = Inr fs2" "cwd fs2 = cwd fs"
      "\<forall>k x. nodes fs2 k = Some (File x) \<longrightarrow> nodes fs k = Some (File x)" by blast
    have "library_root base_path @ ''armeabi-v7a'' \<noteq> []" using library_root_join(6) by simp
    from ensure_dir_clear[OF this clear_path_kept[OF c(2) fs2(2,3)]]
    obtain fs3 where "ensure_dir fs2 (library_root base_path @ ''armeabi-v7a'') = Inr fs3"
      by blast
    with arm fs1(1) fs2(1) show ?thesis by (simp add: defs library_root_join)
  next
    case arm64
    with dirs have "clear_path fs (library_root base_path @ ''arm64-v8a'')"
      by (simp add: LibraryDirectorySet_def)
    from one[OF this] arm64 fs1(1) show ?thesis by (auto simp: defs library_root_join)
  next
    case x86
    with dirs have "clear_path fs (library_root base_path @ ''x86'')"
      by (simp add: LibraryDirectorySet_def)
    from one[OF this] x86 fs1(1) show ?thesis by (auto simp: defs library_root_join)
  next
    case x64
    with dirs have "clear_path fs (library_root base_path @ ''x86_64'')"
      by (simp add: LibraryDirectorySet_def)
    from one[OF this] x64 fs1(1) show ?thesis by (auto simp: defs library_root_join)
  next
    case other
    with fs1(1) show ?thesis by (simp add: defs)
  qed
qed

text \<open>Looking a path up after a regular file was removed.\<close>

lemma lookup_from_remove_missing:
  assumes "lookup_from m d q = Inl FileNotFoundError" "m k = Some (File x)"
  shows "lookup_from (m(k := None)) d q = Inl FileNotFoundError"
  using assms
proof (induction q arbitrary: d)
  case Nil
  then show ?case by simp
next
  case (Cons c cs)
  show ?case
  proof (cases "m (d @ [c])")
    case None
    then show ?thesis by simp
  next
    case (Some n)
    show ?thesis
    proof (cases n)
      case Dir
      with Some Cons.prems have "k \<noteq> d @ [c]" by auto
      moreover from Some Dir Cons.prems
      have "lookup_from m (d @ [c]) cs = Inl FileNotFoundError" by simp
      ultimately show ?thesis using Some Dir Cons.IH Cons.prems(2) by simp
    next
      case (File y)
      with Some Cons.prems show ?thesis by (simp split: if_splits)
    qed
  qed
qed

lemma lookup_from_remove_file:
  assumes "lookup_from m d q = Inr (File y)" "m k = Some (File x)"
  shows "lookup_from (m(k := None)) d q
           = (if k = d @ q then Inl FileNotFoundError else Inr (File y))"
  using assms
proof (induction q arbitrary: d)
  case Nil
  then show ?case by simp
next
  case (Cons c cs)
  show ?case
  proof (cases "m (d @ [c])")
    case None
    with Cons.prems show ?thesis by simp
  next
    case (Some n)
    show ?thesis
    proof (cases n)
      case Dir
      with Some Cons.prems have ne: "k \<noteq> d @ [c]" by auto
      from Some Dir Cons.prems have "lookup_from m (d @ [c]) cs = Inr (File y)" by simp
      from Cons.IH[OF this Cons.prems(2)] ne Some Dir show ?thesis by simp
    next
      case (File z)
      with Some Cons.prems have "cs = []" "z = y" by (auto split: if_splits)
      with Some File show ?thesis by simp
    qed
  qed
qed

lemma os_remove_missing: "stat fs p = Inl e \<Longrightarrow> os_remove fs p = Inl (e, fs)"
  by (simp add: os_remove_def)

lemma os_remove_file:
  assumes "stat fs p = Inr (File x)"
  shows "os_remove fs p = Inr (fs\<lparr>nodes := (nodes fs)(resolve fs p := None)\<rparr>)"
    and "nodes fs (resolve fs p) = Some (File x)"
proof -
  show "os_remove fs p = Inr (fs\<lparr>nodes := (nodes fs)(resolve fs p := None)\<rparr>)"
    using assms by (simp add: os_remove_def)
  have "lookup_from m d q = Inr (File x) \<Longrightarrow> m (d @ q) = Some (File x)" for m d q
  proof (induction q arbitrary: d)
    case Nil
    then show ?case by simp
  next
    case (Cons c cs)
    show ?case
    proof (cases "m (d @ [c])")
      case None
      with Cons.prems show ?thesis by simp
    next
      case (Some n)
      show ?thesis
      proof (cases n)
        case Dir
        with Some Cons.prems have "lookup_from m (d @ [c]) cs = Inr (File x)" by simp
        from Cons.IH[OF this] show ?thesis by simp
      next
        case (File z)
        with Some Cons.prems show ?thesis by (auto split: if_splits)
      qed
    qed
  qed
  from this[of "nodes fs" "[]" "resolve fs p"] assms
  show "nodes fs (resolve fs p) = Some (File x)" by (simp add: stat_def split: if_splits)
qed

lemma stat_after_remove:
  assumes "stat fs p = Inr (File x)"
  defines "fs' \<equiv> fs\<lparr>nodes := (nodes fs)(resolve fs p := None)\<rparr>"
  shows "stat fs q = Inl FileNotFoundError \<Longrightarrow> stat fs' q = Inl FileNotFoundError"
    and "stat fs q = Inr (File y) \<Longrightarrow>
           stat fs' q = Inr (File y) \<or> stat fs' q = Inl FileNotFoundError"
    and "no_new_entries fs fs'"
proof -
  have r: "resolve (fs\<lparr>nodes := n\<rparr>) q = resolve fs q" for n
    by (simp add: resolve_def)
  note n = os_remove_file(2)[OF assms(1)]
  show "stat fs q = Inl FileNotFoundError \<Longrightarrow> stat fs' q = Inl FileNotFoundError"
    using lookup_from_remove_missing
            [where m = "nodes fs" and d = "[]" and q = "resolve fs q"
               and k = "resolve fs p" and x = x] n
    by (simp add: stat_def r fs'_def split: if_splits)
  show "stat fs q = Inr (File y) \<Longrightarrow>
           stat fs' q = Inr (File y) \<or> stat fs' q = Inl FileNotFoundError"
    using lookup_from_remove_file
            [where m = "nodes fs" and d = "[]" and q = "resolve fs q"
               and k = "resolve fs p" and x = x and y = y] n
    by (simp add: stat_def r fs'_def split: if_splits)
  show "no_new_entries fs fs'"
    by (simp add: no_new_entries_def fs'_def split: if_splits)
qed

lemma no_new_entries_trans:
  "no_new_entries a b \<Longrightarrow> no_new_entries b c \<Longrightarrow> no_new_entries a c"
  by (simp add: no_new_entries_def)

lemma no_new_entries_refl: "no_new_entries a a"
  by (simp add: no_new_entries_def)

text \<open>
  The removal step with a flag that is not zero, in a directory where the configuration
  companion is missing, or is there while the script companion is missing.
\<close>

lemma delete_existing_gadget_missing_companion:
  assumes flag: "delete_custom_files \<noteq> 0"
      and missing:
        "stat fs (os_path_join arch_folder DEFAULT_CONFIG_NAME) = Inl FileNotFoundError
         \<or> (os_path_isfile fs (os_path_join arch_folder DEFAULT_CONFIG_NAME)
            \<and> stat fs (os_path_join arch_folder DEFAULT_HOOKFILE_NAME) = Inl FileNotFoundError)"
  shows "\<exists>fs'. delete_existing_gadget fs arch_folder delete_custom_files
                 = Inl (FileNotFoundError, fs') \<and> no_new_entries fs fs'"
proof -
  let ?g = "os_path_join arch_folder DEFAULT_GADGET_NAME"
  let ?c = "os_path_join arch_folder DEFAULT_CONFIG_NAME"
  let ?h = "os_path_join arch_folder DEFAULT_HOOKFILE_NAME"
  obtain fs1 where fs1:
    "(if os_path_isfile fs ?g then os_remove fs ?g else Inr fs) = Inr fs1"
    "no_new_entries fs fs1"
    "stat fs ?c = Inl FileNotFoundError \<Longrightarrow> stat fs1 ?c = Inl FileNotFoundError"
    "stat fs ?h = Inl FileNotFoundError \<Longrightarrow> stat fs1 ?h = Inl FileNotFoundError"
    "os_path_isfile fs ?c \<Longrightarrow> os_path_isfile fs1 ?c \<or> stat fs1 ?c = Inl FileNotFoundError"
  proof (cases "os_path_isfile fs ?g")
    case False
    then show ?thesis using that[of fs] by (simp add: no_new_entries_refl)
  next
    case True
    then obtain x where x: "stat fs ?g = Inr (File x)"
      by (auto simp: os_path_isfile_def split: sum.splits node.splits)
    let ?fs1 = "fs\<lparr>nodes := (nodes fs)(resolve fs ?g := None)\<rparr>"
    have "os_path_isfile fs ?c \<Longrightarrow> os_path_isfile ?fs1 ?c \<or> stat ?fs1 ?c = Inl FileNotFoundError"
    proof -
      assume "os_path_isfile fs ?c"
      then obtain y where "stat fs ?c = Inr (File y)"
        by (auto simp: os_path_isfile_def split: sum.splits node.splits)
      from stat_after_remove(2)[OF x this] show ?thesis
        by (auto simp: os_path_isfile_def)
    qed
    then show ?thesis
      using that[of ?fs1] True os_remove_file(1)[OF x] stat_after_remove(1,3)[OF x]
      by simp
  qed
  have run: "delete_existing_gadget fs arch_folder delete_custom_files =
      (case os_remove fs1 ?c of Inl e \<Rightarrow> Inl e | Inr fs2 \<Rightarrow> os_remove fs2 ?h)"
    using flag fs1(1) by (simp add: delete_existing_gadget_def Let_def)
  from missing show ?thesis
  proof
    assume "stat fs ?c = Inl FileNotFoundError"
    then have "os_remove fs1 ?c = Inl (FileNotFoundError, fs1)"
      using fs1(3) os_remove_missing by simp
    with run fs1(2) show ?thesis by simp
  next
    assume b: "os_path_isfile fs ?c \<and> stat fs ?h = Inl FileNotFoundError"
    then have h1: "stat fs1 ?h = Inl FileNotFoundError" using fs1(4) by simp
    from b fs1(5) consider "stat fs1 ?c = Inl FileNotFoundError" | "os_path_isfile fs1 ?c"
      by blast
    then show ?thesis
    proof cases
      case 1
      then have "os_remove fs1 ?c = Inl (FileNotFoundError, fs1)"
        using os_remove_missing by simp
      with run fs1(2) show ?thesis by simp
    next
      case 2
      then obtain y where y: "stat fs1 ?c = Inr (File y)"
        by (auto simp: os_path_isfile_def split: sum.splits node.splits)
      let ?fs2 = "fs1\<lparr>nodes := (nodes fs1)(resolve fs1 ?c := None)\<rparr>"
      have "os_remove fs1 ?c = Inr ?fs2" by (rule os_remove_file(1)[OF y])
      moreover have "os_remove ?fs2 ?h = Inl (FileNotFoundError, ?fs2)"
        using stat_after_remove(1)[OF y h1] os_remove_missing by simp
      moreover have "no_new_entries fs ?fs2"
        using no_new_entries_trans[OF fs1(2) stat_after_remove(3)[OF y]] .
      ultimately show ?thesis using run by simp
    qed
  qed
qed



section \<open>The claims about the smali injector\<close>

text \<open>
  Claim C1. Applying the injector twice with the same library name gives "already applied"
  on the second call, for every class source and every library name, and the second call
  leaves the text of the first call unchanged. The guard of the source looks for the
  fixed text \<^verbatim>\<open>frida-gadget\<close>, not for the library name it was given: on a class without
  a static initializer and the library name \<^verbatim>\<open>mylib\<close>, the first call writes a static
  initializer, and the second call returns \<^verbatim>\<open>True\<close> again and changes the text (it puts
  the partial snippet after the \<^verbatim>\<open>.prologue\<close> of the initializer that the first call
  wrote).
\<close>

theorem insert_frida_loader_twice_mylib:
  "returned (insert_frida_loader class_without_initializer ''mylib'') = True
   \<and> returned (insert_frida_loader
        (file_content (insert_frida_loader class_without_initializer ''mylib'')) ''mylib'') = True
   \<and> message (insert_frida_loader
        (file_content (insert_frida_loader class_without_initializer ''mylib'')) ''mylib'')
       = LoaderInjected
   \<and> file_content (insert_frida_loader
        (file_content (insert_frida_loader class_without_initializer ''mylib'')) ''mylib'')
       \<noteq> file_content (insert_frida_loader class_without_initializer ''mylib'')"
  by code_simp

text \<open>
  Claim C2 (as amended). For every library name and every class source in which neither
  the library name nor the text \<^verbatim>\<open>frida-gadget\<close> occurs (so that the already-applied guard
  does not trip), and in which the source's searches find the two section markers, the
  static initializer between them, its \<^verbatim>\<open>.end method\<close> and a \<^verbatim>\<open>.prologue\<close> between the
  initializer's start and that end, the injector returns \<^verbatim>\<open>True\<close> and the new text is
  the original text up to and including the one character that follows the first such
  \<^verbatim>\<open>.prologue\<close>, then the partial snippet (a \<^verbatim>\<open>const-string\<close> of the library name into
  \<^verbatim>\<open>v0\<close> and the static call of \<^verbatim>\<open>System.loadLibrary\<close> on \<^verbatim>\<open>v0\<close>), then the rest of
  the original text. When that one character is a line break, the snippet stands
  immediately after the prologue marker line.
\<close>

theorem insert_frida_loader_existing_initializer:
  assumes fresh: "\<not> sublist lib content"
      and guard: "\<not> sublist ''frida-gadget'' content"
      and ds: "ds = py_find0 content ''# direct methods''" "ds \<noteq> - 1"
      and de: "de = py_find0 content ''# virtual methods''" "de \<noteq> - 1"
      and cs: "cs = py_find content ''.method static constructor <clinit>()V'' ds de" "cs \<noteq> - 1"
      and ce: "ce = py_find content ''.end method'' cs de" "ce \<noteq> - 1"
      and ps: "ps = py_find content ''.prologue'' cs ce" "ps \<noteq> - 1"
  shows "\<exists>pre post.
           content = pre @ ''.prologue'' @ post \<and> int (length pre) = ps
           \<and> cs \<le> ps \<and> ps + 9 \<le> ce
           \<and> insert_frida_loader content lib =
               \<lparr>returned = True, message = LoaderInjected,
                file_content =
                  pre @ ''.prologue'' @ take 1 post
                  @ ''\<newline>    const-string v0, \"'' @ lib @ ''\"\<newline>''
                  @ ''\<newline>''
                  @ ''    invoke-static {v0}, Ljava/lang/System;->loadLibrary(Ljava/lang/String;)V\<newline>''
                  @ ''\<newline>''
                  @ ''        ''
                  @ drop 1 post\<rparr>
           \<and> (take 1 post = ''\<newline>'' \<longrightarrow>
                file_content (insert_frida_loader content lib) =
                  pre @ ''.prologue\<newline>''
                  @ ''\<newline>    const-string v0, \"'' @ lib @ ''\"\<newline>''
                  @ ''\<newline>''
                  @ ''    invoke-static {v0}, Ljava/lang/System;->loadLibrary(Ljava/lang/String;)V\<newline>''
                  @ ''\<newline>''
                  @ ''        ''
                  @ drop 1 post)"
proof -
  have ds0: "0 \<le> ds" using ds py_find0_nonneg by simp
  have de0: "0 \<le> de" using de py_find0_nonneg by simp
  have cs0: "0 \<le> cs" using py_find_lower[OF ds0 de0, of content] cs ds0 by fastforce
  have ce0: "0 \<le> ce" using py_find_lower[OF cs0 de0, of content] ce cs0 by fastforce
  from py_find_found[OF cs0 ce0, of content "''.prologue''"] ps
  obtain k where k: "ps = int k" "cs \<le> int k" "occurs ''.prologue'' content k ce"
    by metis
  let ?pre = "take k content" and ?post = "drop (k + length ''.prologue'') content"
  note sp = splice_after_marker[OF k(3)]
  have run: "insert_frida_loader content lib =
      written (py_slice_to content (ps + int (length ''.prologue'') + 1)
               @ partial_injection_code lib
               @ py_slice_from content (ps + int (length ''.prologue'') + 1))"
    using guard ds de cs ce ps k(1)
    by (simp add: insert_frida_loader_def Let_def py_in_sublist)
  have "insert_frida_loader content lib =
      written (?pre @ ''.prologue'' @ take 1 ?post @ partial_injection_code lib @ drop 1 ?post)"
    unfolding run k(1) sp(5) sp(6) by simp
  moreover have "content = ?pre @ ''.prologue'' @ ?post" by (rule sp(1))
  moreover have "int (length ?pre) = ps" using sp(2) k(1) by simp
  moreover have "ps + 9 \<le> ce" using occurs_bounds[OF k(3)] k(1) by simp
  ultimately show ?thesis
    using k(1,2) unfolding written_def partial_injection_code_eq
    by (intro exI[of _ ?pre] exI[of _ ?post]) simp
qed

theorem insert_frida_loader_existing_initializer_witness:
  "\<not> sublist ''mylib'' class_with_initializer
   \<and> \<not> sublist ''frida-gadget'' class_with_initializer
   \<and> py_find0 class_with_initializer ''# direct methods'' = 32
   \<and> py_find0 class_with_initializer ''# virtual methods'' = 144
   \<and> py_find class_with_initializer ''.method static constructor <clinit>()V'' 32 144 = 49
   \<and> py_find class_with_initializer ''.end method'' 49 144 = 132
   \<and> py_find class_with_initializer ''.prologue'' 49 132 = 92
   \<and> (\<exists>pre post.
         class_with_initializer = pre @ ''.prologue'' @ post \<and> int (length pre) = 92
         \<and> insert_frida_loader class_with_initializer ''mylib'' =
             \<lparr>returned = True, message = LoaderInjected,
              file_content =
                pre @ ''.prologue'' @ take 1 post
                @ ''\<newline>    const-string v0, \"'' @ ''mylib'' @ ''\"\<newline>''
                @ ''\<newline>''
                @ ''    invoke-static {v0}, Ljava/lang/System;->loadLibrary(Ljava/lang/String;)V\<newline>''
                @ ''\<newline>''
                @ ''        ''
                @ drop 1 post\<rparr>)"
proof -
  have f: "\<not> sublist ''mylib'' class_with_initializer" by code_simp
  have g: "\<not> sublist ''frida-gadget'' class_with_initializer" by code_simp
  have ds: "py_find0 class_with_initializer ''# direct methods'' = 32" by code_simp
  have de: "py_find0 class_with_initializer ''# virtual methods'' = 144" by code_simp
  have cs: "py_find class_with_initializer ''.method static constructor <clinit>()V'' 32 144 = 49"
    by code_simp
  have ce: "py_find class_with_initializer ''.end method'' 49 144 = 132" by code_simp
  have ps: "py_find class_with_initializer ''.prologue'' 49 132 = 92" by code_simp
  from insert_frida_loader_existing_initializer
         [OF f g ds[symmetric] _ de[symmetric] _ cs[symmetric] _ ce[symmetric] _ ps[symmetric]]
  obtain pre post where
    "class_with_initializer = pre @ ''.prologue'' @ post" "int (length pre) = 92"
    "insert_frida_loader class_with_initializer ''mylib'' =
       \<lparr>returned = True, message = LoaderInjected,
        file_content =
          pre @ ''.prologue'' @ take 1 post
          @ ''\<newline>    const-string v0, \"'' @ ''mylib'' @ ''\"\<newline>''
          @ ''\<newline>''
          @ ''    invoke-static {v0}, Ljava/lang/System;->loadLibrary(Ljava/lang/String;)V\<newline>''
          @ ''\<newline>''
          @ ''        ''
          @ drop 1 post\<rparr>"
    by auto
  then show ?thesis using f g ds de cs ce ps by blast
qed

text \<open>
  Claim C2 as stated does not name the already-applied guard: with the library name
  \<^verbatim>\<open>frida-gadget\<close>, a class source with the markers, the initializer and its prologue
  that mentions the library name in a comment is left as it is.
\<close>

theorem insert_frida_loader_existing_initializer_counterexample:
  "py_find0 (class_with_initializer @ ''# frida-gadget'') ''# direct methods'' = 32
   \<and> py_find0 (class_with_initializer @ ''# frida-gadget'') ''# virtual methods'' = 144
   \<and> py_find (class_with_initializer @ ''# frida-gadget'')
        ''.method static constructor <clinit>()V'' 32 144 = 49
   \<and> py_find (class_with_initializer @ ''# frida-gadget'') ''.end method'' 49 144 = 132
   \<and> py_find (class_with_initializer @ ''# frida-gadget'') ''.prologue'' 49 132 = 92
   \<and> insert_frida_loader (class_with_initializer @ ''# frida-gadget'') ''frida-gadget'' =
       \<lparr>returned = False, message = AlreadyInEntrypoint,
        file_content = class_with_initializer @ ''# frida-gadget''\<rparr>"
  by code_simp

text \<open>
  Claim C3 (as amended). For every class source in which neither the library name
  (\<^verbatim>\<open>mylib\<close> in the scenario) nor the text \<^verbatim>\<open>frida-gadget\<close> occurs (so that the
  already-applied guard does not trip), in which both section markers are found and no
  static initializer starts between them, injecting the library name returns
  \<^verbatim>\<open>True\<close> and gives the original text with a complete method block spliced in after the
  \<^verbatim>\<open># direct methods\<close> marker and the one character that follows it: the method start,
  \<^verbatim>\<open>.locals 1\<close>, \<^verbatim>\<open>.prologue\<close>, the string constant, the static load call, \<^verbatim>\<open>return-void\<close>
  and \<^verbatim>\<open>.end method\<close>. All original text is kept.
\<close>

theorem insert_frida_loader_no_initializer:
  assumes fresh: "\<not> sublist lib content"
      and guard: "\<not> sublist ''frida-gadget'' content"
      and ds: "ds = py_find0 content ''# direct methods''" "ds \<noteq> - 1"
      and de: "de = py_find0 content ''# virtual methods''" "de \<noteq> - 1"
      and cs: "py_find content ''.method static constructor <clinit>()V'' ds de = - 1"
  shows "\<exists>pre post.
           content = pre @ ''# direct methods'' @ post \<and> int (length pre) = ds
           \<and> insert_frida_loader content lib =
               \<lparr>returned = True, message = LoaderInjected,
                file_content =
                  pre @ ''# direct methods'' @ take 1 post
                  @ ''\<newline>''
                  @ ''.method static constructor <clinit>()V\<newline>''
                  @ ''    .locals 1\<newline>''
                  @ ''\<newline>''
                  @ ''    .prologue\<newline>''
                  @ ''    const-string v0, \"'' @ lib @ ''\"\<newline>''
                  @ ''\<newline>''
                  @ ''    invoke-static {v0}, Ljava/lang/System;->loadLibrary(Ljava/lang/String;)V\<newline>''
                  @ ''\<newline>''
                  @ ''    return-void\<newline>''
                  @ ''.end method\<newline>''
                  @ ''        ''
                  @ drop 1 post\<rparr>"
proof -
  have "py_find content ''# direct methods'' 0 (int (length content)) \<noteq> - 1"
    using ds by (simp add: py_find0_def)
  from py_find_found[OF _ _ this]
  obtain k where k: "ds = int k" "occurs ''# direct methods'' content k (int (length content))"
    using ds(1) by (auto simp: py_find0_def)
  let ?pre = "take k content" and ?post = "drop (k + length ''# direct methods'') content"
  note sp = splice_after_marker[OF k(2)]
  have run: "insert_frida_loader content lib =
      written (py_slice_to content (ds + int (length ''# direct methods'') + 1)
               @ full_injection_code lib
               @ py_slice_from content (ds + int (length ''# direct methods'') + 1))"
    using guard ds de cs
    by (simp add: insert_frida_loader_def Let_def py_in_sublist)
  have "insert_frida_loader content lib =
      written (?pre @ ''# direct methods'' @ take 1 ?post @ full_injection_code lib @ drop 1 ?post)"
    unfolding run k(1) sp(5) sp(6) by simp
  moreover have "content = ?pre @ ''# direct methods'' @ ?post" by (rule sp(1))
  moreover have "int (length ?pre) = ds" using sp(2) k(1) by simp
  ultimately show ?thesis
    unfolding written_def full_injection_code_eq
    by (intro exI[of _ ?pre] exI[of _ ?post]) simp
qed

theorem insert_frida_loader_no_initializer_witness:
  "\<not> sublist ''mylib'' class_without_initializer
   \<and> \<not> sublist ''frida-gadget'' class_without_initializer
   \<and> py_find0 class_without_initializer ''# direct methods'' = 32
   \<and> py_find0 class_without_initializer ''# virtual methods'' = 114
   \<and> py_find class_without_initializer ''.method static constructor <clinit>()V'' 32 114 = - 1
   \<and> (\<exists>pre post.
         class_without_initializer = pre @ ''# direct methods'' @ post \<and> int (length pre) = 32
         \<and> insert_frida_loader class_without_initializer ''mylib'' =
             \<lparr>returned = True, message = LoaderInjected,
              file_content =
                pre @ ''# direct methods'' @ take 1 post
                @ ''\<newline>''
                @ ''.method static constructor <clinit>()V\<newline>''
                @ ''    .locals 1\<newline>''
                @ ''\<newline>''
                @ ''    .prologue\<newline>''
                @ ''    const-string v0, \"'' @ ''mylib'' @ ''\"\<newline>''
                @ ''\<newline>''
                @ ''    invoke-static {v0}, Ljava/lang/System;->loadLibrary(Ljava/lang/String;)V\<newline>''
                @ ''\<newline>''
                @ ''    return-void\<newline>''
                @ ''.end method\<newline>''
                @ ''        ''
                @ drop 1 post\<rparr>)"
proof -
  have f: "\<not> sublist ''mylib'' class_without_initializer" by code_simp
  have g: "\<not> sublist ''frida-gadget'' class_without_initializer" by code_simp
  have ds: "py_find0 class_without_initializer ''# direct methods'' = 32" by code_simp
  have de: "py_find0 class_without_initializer ''# virtual methods'' = 114" by code_simp
  have cs: "py_find class_without_initializer ''.method static constructor <clinit>()V'' 32 114 = - 1"
    by code_simp
  from insert_frida_loader_no_initializer
         [OF f g ds[symmetric] _ de[symmetric] _ cs]
  show ?thesis using f g ds de cs by auto
qed

text \<open>
  Claim C3 as stated does not name the already-applied guard either: a class source with
  both markers and no static initializer that already mentions the library name \<^verbatim>\<open>mylib\<close>
  (here in a comment that also has the text \<^verbatim>\<open>frida-gadget\<close>) gets no method block.
\<close>

theorem insert_frida_loader_no_initializer_counterexample:
  "sublist ''mylib'' (class_without_initializer @ ''# mylib is a renamed frida-gadget'')
   \<and> py_find0 (class_without_initializer @ ''# mylib is a renamed frida-gadget'')
        ''# direct methods'' = 32
   \<and> py_find0 (class_without_initializer @ ''# mylib is a renamed frida-gadget'')
        ''# virtual methods'' = 114
   \<and> py_find (class_without_initializer @ ''# mylib is a renamed frida-gadget'')
        ''.method static constructor <clinit>()V'' 32 114 = - 1
   \<and> insert_frida_loader (class_without_initializer @ ''# mylib is a renamed frida-gadget'')
        ''mylib'' =
       \<lparr>returned = False, message = AlreadyInEntrypoint,
        file_content = class_without_initializer @ ''# mylib is a renamed frida-gadget''\<rparr>"
  by code_simp

text \<open>
  Claim C4. The injector returns \<^verbatim>\<open>False\<close> and injects nothing whenever (a) the
  \<^verbatim>\<open># direct methods\<close> or the \<^verbatim>\<open># virtual methods\<close> marker is absent, or (b) a static
  initializer starts between them and no \<^verbatim>\<open>.end method\<close> lies between its start and the
  virtual-methods marker, or (c) the initializer is found and no \<^verbatim>\<open>.prologue\<close> lies
  between its start and its end marker. Unless the text already mentions
  \<^verbatim>\<open>frida-gadget\<close>, the message printed is the structural warning of that case.
\<close>

theorem insert_frida_loader_structural_failure:
  assumes ds: "ds = py_find0 content ''# direct methods''"
      and de: "de = py_find0 content ''# virtual methods''"
      and cs: "cs = py_find content ''.method static constructor <clinit>()V'' ds de"
      and ce: "ce = py_find content ''.end method'' cs de"
      and ps: "ps = py_find content ''.prologue'' cs ce"
      and bad: "\<not> sublist ''# direct methods'' content \<or> \<not> sublist ''# virtual methods'' content
                \<or> (cs \<noteq> - 1 \<and> ce = - 1) \<or> (cs \<noteq> - 1 \<and> ps = - 1)"
  shows "returned (insert_frida_loader content lib) = False
       \<and> file_content (insert_frida_loader content lib) = content
       \<and> (\<not> sublist ''frida-gadget'' content \<longrightarrow>
            message (insert_frida_loader content lib) =
              (if \<not> sublist ''# direct methods'' content \<or> \<not> sublist ''# virtual methods'' content
               then NoDirectMethods
               else if ce = - 1 then NoConstructorEnd else NoPrologue))"
  using bad unfolding ds de cs ce ps
  by (auto simp: insert_frida_loader_def Let_def skipped_def written_def py_in_sublist
        py_find0_absent_iff)

theorem insert_frida_loader_structural_failure_witness:
  "\<not> sublist ''# direct methods'' class_without_markers
   \<and> insert_frida_loader class_without_markers ''frida-gadget''
       = \<lparr>returned = False, message = NoDirectMethods, file_content = class_without_markers\<rparr>
   \<and> py_find class_with_unterminated_initializer ''.method static constructor <clinit>()V''
        0 70 \<noteq> - 1
   \<and> insert_frida_loader class_with_unterminated_initializer ''frida-gadget''
       = \<lparr>returned = False, message = NoConstructorEnd,
          file_content = class_with_unterminated_initializer\<rparr>
   \<and> py_find class_with_initializer_without_prologue ''.method static constructor <clinit>()V''
        0 84 \<noteq> - 1
   \<and> insert_frida_loader class_with_initializer_without_prologue ''frida-gadget''
       = \<lparr>returned = False, message = NoPrologue,
          file_content = class_with_initializer_without_prologue\<rparr>"
proof -
  let ?a = class_without_markers
  let ?b = class_with_unterminated_initializer
  let ?c = class_with_initializer_without_prologue
  have a: "\<not> sublist ''# direct methods'' ?a" "\<not> sublist ''frida-gadget'' ?a" by code_simp+
  have b: "py_find0 ?b ''# direct methods'' = 0" "py_find0 ?b ''# virtual methods'' = 70"
    "py_find ?b ''.method static constructor <clinit>()V'' 0 70 = 17"
    "py_find ?b ''.end method'' 17 70 = - 1"
    "sublist ''# direct methods'' ?b" "sublist ''# virtual methods'' ?b"
    "\<not> sublist ''frida-gadget'' ?b" by code_simp+
  have c: "py_find0 ?c ''# direct methods'' = 0" "py_find0 ?c ''# virtual methods'' = 84"
    "py_find ?c ''.method static constructor <clinit>()V'' 0 84 = 17"
    "py_find ?c ''.end method'' 17 84 = 72"
    "py_find ?c ''.prologue'' 17 72 = - 1"
    "sublist ''# direct methods'' ?c" "sublist ''# virtual methods'' ?c"
    "\<not> sublist ''frida-gadget'' ?c" by code_simp+
  have ra: "insert_frida_loader ?a ''frida-gadget''
       = \<lparr>returned = False, message = NoDirectMethods, file_content = ?a\<rparr>"
    using insert_frida_loader_structural_failure
            [OF refl refl refl refl refl disjI1[OF a(1)], of "''frida-gadget''"] a
    by (cases "insert_frida_loader ?a ''frida-gadget''") simp
  have rb: "insert_frida_loader ?b ''frida-gadget''
       = \<lparr>returned = False, message = NoConstructorEnd, file_content = ?b\<rparr>"
    using insert_frida_loader_structural_failure
            [of 0 ?b 70 17 "- 1" "py_find ?b ''.prologue'' 17 (- 1)" "''frida-gadget''"] b
    by (cases "insert_frida_loader ?b ''frida-gadget''") simp
  have rc: "insert_frida_loader ?c ''frida-gadget''
       = \<lparr>returned = False, message = NoPrologue, file_content = ?c\<rparr>"
    using insert_frida_loader_structural_failure
            [of 0 ?c 84 17 72 "- 1" "''frida-gadget''"] c
    by (cases "insert_frida_loader ?c ''frida-gadget''") simp
  show ?thesis using a(1) b(3) c(3) ra rb rc by simp
qed


section \<open>The claims about the architecture resolver and the directory planner\<close>

text \<open>
  Claim C5 (as amended). The resolver tests, first match wins: \<^verbatim>\<open>arm\<close> without \<^verbatim>\<open>64\<close> gives
  arm32; \<^verbatim>\<open>arm64\<close> gives arm64; \<^verbatim>\<open>i386\<close>, or \<^verbatim>\<open>x86\<close> without \<^verbatim>\<open>64\<close>, gives x86;
  \<^verbatim>\<open>x86_64\<close> gives x86_64; anything else is unknown. This is the architecture of the
  specification's rule for every name except those that contain both \<^verbatim>\<open>i386\<close> and
  \<^verbatim>\<open>x86_64\<close> and not \<^verbatim>\<open>arm64\<close>, which resolve to x86.
\<close>

theorem get_arch_by_gadget_precedence:
  "get_arch_by_gadget name =
     (if sublist ''arm'' name \<and> \<not> sublist ''64'' name then Some ARCH_ARM
      else if sublist ''arm64'' name then Some ARCH_ARM64
      else if sublist ''i386'' name \<or> (sublist ''x86'' name \<and> \<not> sublist ''64'' name)
      then Some ARCH_X86
      else if sublist ''x86_64'' name then Some ARCH_X64
      else None)
   \<and> get_arch_by_gadget name =
     (if sublist ''i386'' name \<and> sublist ''x86_64'' name \<and> \<not> sublist ''arm64'' name
      then Some ARCH_X86
      else ArchitectureResolver_rule name)"
proof -
  have "sublist ''arm'' ''arm64''" "sublist ''64'' ''arm64''" "sublist ''64'' ''x86_64''"
    by code_simp+
  then have sub: "sublist ''arm64'' name \<Longrightarrow> sublist ''arm'' name"
    "sublist ''arm64'' name \<Longrightarrow> sublist ''64'' name"
    "sublist ''x86_64'' name \<Longrightarrow> sublist ''64'' name"
    using sublist_order.order_trans by blast+
  show ?thesis
    unfolding get_arch_by_gadget_def ArchitectureResolver_rule_def py_in_sublist
    using sub by auto
qed

theorem get_arch_by_gadget_precedence_witness:
  "get_arch_by_gadget ''frida-gadget-16.1.4-android-arm64.so'' = Some ARCH_ARM64
   \<and> ArchitectureResolver_rule ''frida-gadget-16.1.4-android-arm64.so'' = Some ARCH_ARM64"
proof -
  have "sublist ''arm64'' ''frida-gadget-16.1.4-android-arm64.so''"
    "sublist ''64'' ''frida-gadget-16.1.4-android-arm64.so''" by code_simp+
  then show ?thesis
    using get_arch_by_gadget_precedence[of "''frida-gadget-16.1.4-android-arm64.so''"]
    by (simp add: ArchitectureResolver_rule_def)
qed

text \<open>
  Claim C5 as stated gives the \<^verbatim>\<open>x86_64\<close> test before the \<^verbatim>\<open>i386\<close> test; the source has
  them the other way round, and a name with both resolves to x86.
\<close>

theorem get_arch_by_gadget_counterexample:
  "get_arch_by_gadget ''i386/frida-gadget-x86_64.so'' = Some ''x86''
   \<and> ArchitectureResolver_rule ''i386/frida-gadget-x86_64.so'' = Some ''x64''"
  by code_simp

text \<open>
  Claim C6. For every tree root, the directory planner returns exactly the directories of
  the specification's mapping under the library root: the two directories \<^verbatim>\<open>armeabi\<close> and
  \<^verbatim>\<open>armeabi-v7a\<close> for arm32, the one directory \<^verbatim>\<open>arm64-v8a\<close>, \<^verbatim>\<open>x86\<close> or \<^verbatim>\<open>x86_64\<close> for
  arm64, x86 and x86_64, and the empty list for any other architecture. Whatever it
  returns is that list, and it does return it whenever no regular file sits on the
  library root or on a planned directory (otherwise \<^verbatim>\<open>os.makedirs\<close> raises).
\<close>

theorem create_lib_arch_folders_plan:
  "(create_lib_arch_folders fs base_path arch = Inr (dirs, fs') \<longrightarrow>
      dirs = LibraryDirectorySet base_path arch)
   \<and> (clear_path fs (library_root base_path)
        \<and> list_all (clear_path fs) (LibraryDirectorySet base_path arch) \<longrightarrow>
      (\<exists>fs2. create_lib_arch_folders fs base_path arch
               = Inr (LibraryDirectorySet base_path arch, fs2)))
   \<and> length (LibraryDirectorySet base_path arch) =
       (if arch = Some ARCH_ARM then 2
        else if arch \<in> {Some ARCH_ARM64, Some ARCH_X86, Some ARCH_X64} then 1 else 0)"
  using create_lib_arch_folders_result[of fs base_path arch dirs fs']
    create_lib_arch_folders_returns[of fs base_path arch]
  by (auto simp: LibraryDirectorySet_def ARCH_ARM_def ARCH_ARM64_def ARCH_X86_def ARCH_X64_def)

theorem create_lib_arch_folders_plan_witness:
  "clear_path fresh_tree (library_root ''/tmp/app'')
   \<and> list_all (clear_path fresh_tree) (LibraryDirectorySet ''/tmp/app'' (Some ARCH_ARM))
   \<and> (\<exists>fs2. create_lib_arch_folders fresh_tree ''/tmp/app'' (Some ARCH_ARM)
              = Inr ([''/tmp/app/lib/armeabi'', ''/tmp/app/lib/armeabi-v7a''], fs2))
   \<and> (\<exists>fs2. create_lib_arch_folders fresh_tree ''/tmp/app'' (Some ARCH_X64)
              = Inr ([''/tmp/app/lib/x86_64''], fs2))
   \<and> (\<exists>fs2. create_lib_arch_folders fresh_tree ''/tmp/app'' None = Inr ([], fs2))"
proof -
  have r: "clear_path fresh_tree (library_root ''/tmp/app'')" by code_simp
  have a: "list_all (clear_path fresh_tree) (LibraryDirectorySet ''/tmp/app'' (Some ARCH_ARM))"
    by code_simp
  have x: "list_all (clear_path fresh_tree) (LibraryDirectorySet ''/tmp/app'' (Some ARCH_X64))"
    by code_simp
  have n: "list_all (clear_path fresh_tree) (LibraryDirectorySet ''/tmp/app'' None)"
    by code_simp
  have la: "LibraryDirectorySet ''/tmp/app'' (Some ARCH_ARM)
             = [''/tmp/app/lib/armeabi'', ''/tmp/app/lib/armeabi-v7a'']" by code_simp
  have lx: "LibraryDirectorySet ''/tmp/app'' (Some ARCH_X64) = [''/tmp/app/lib/x86_64'']"
    by code_simp
  have ln: "LibraryDirectorySet ''/tmp/app'' None = []" by code_simp
  from create_lib_arch_folders_plan[of fresh_tree "''/tmp/app''" "Some ARCH_ARM"]
       create_lib_arch_folders_plan[of fresh_tree "''/tmp/app''" "Some ARCH_X64"]
       create_lib_arch_folders_plan[of fresh_tree "''/tmp/app''" None]
  show ?thesis using r a x n unfolding la lx ln by blast
qed


section \<open>The claims about the payload installer\<close>

text \<open>
  Claim C7. Called with a configuration path and no script path, the installer removes
  only the configuration companion installed before and leaves the script companion. The
  source passes \<open>CONFIG_BIT\<close> alone, and \<^verbatim>\<open>delete_existing_gadget\<close> removes both
  companions for any flag that is not zero: on an application patched before, the script
  companion \<^verbatim>\<open>libhook.js.so\<close> is gone after the call.
\<close>

theorem insert_frida_lib_config_only_removes_hookfile:
  "stat patched_tree ''/tmp/app/lib/x86/libhook.js.so'' = Inr (File ''OLD HOOK'')
   \<and> (case delete_existing_gadget patched_tree ''/tmp/app/lib/x86'' CONFIG_BIT of
         Inl e \<Rightarrow> False
       | Inr fs' \<Rightarrow> stat fs' ''/tmp/app/lib/x86/libhook.js.so'' = Inl FileNotFoundError)
   \<and> (case insert_frida_lib patched_tree ''/tmp/app'' ''frida-gadget-x86.so''
              (Some ''gadget.config'') None of
         Inl e \<Rightarrow> False
       | Inr (ok, fs') \<Rightarrow>
           ok
           \<and> stat fs' ''/tmp/app/lib/x86/libfrida-gadget.so'' = Inr (File ''GADGET'')
           \<and> stat fs' ''/tmp/app/lib/x86/libfrida-gadget.config.so'' = Inr (File ''CONFIG'')
           \<and> stat fs' ''/tmp/app/lib/x86/libhook.js.so'' = Inl FileNotFoundError)"
  by code_simp

text \<open>
  Claim C9. Whenever the installer is called with a configuration path or a script path
  (or both) and the directory whose turn it is lacks one of the two companions installed
  before (the configuration companion is missing, or it is there and the script companion
  is missing), the removal step raises \<open>FileNotFoundError\<close> before anything is copied into
  that directory: the file system at that moment has no entry that it did not have
  before. This holds on a fresh tree, which has neither companion.
\<close>

theorem insert_frida_lib_missing_companion:
  assumes supplied: "truthy config_file_path \<or> truthy auto_load_script_path"
      and missing:
        "stat fs (os_path_join folder DEFAULT_CONFIG_NAME) = Inl FileNotFoundError
         \<or> (os_path_isfile fs (os_path_join folder DEFAULT_CONFIG_NAME)
            \<and> stat fs (os_path_join folder DEFAULT_HOOKFILE_NAME) = Inl FileNotFoundError)"
  shows "\<exists>fs'. insert_frida_lib_loop fs (folder # folders) gadget_path config_file_path
                   auto_load_script_path = Inl (FileNotFoundError, fs')
               \<and> no_new_entries fs fs'"
proof -
  let ?flag = "if truthy config_file_path \<and> truthy auto_load_script_path
               then CONFIG_BIT OR AUTOLOAD_BIT
               else if truthy config_file_path \<and> \<not> truthy auto_load_script_path
               then CONFIG_BIT
               else if truthy auto_load_script_path \<and> \<not> truthy config_file_path
               then AUTOLOAD_BIT
               else 0"
  have "?flag \<noteq> 0" using supplied by (auto simp: CONFIG_BIT_def AUTOLOAD_BIT_def)
  from delete_existing_gadget_missing_companion[OF this missing]
  obtain fs' where "delete_existing_gadget fs folder ?flag = Inl (FileNotFoundError, fs')"
    "no_new_entries fs fs'" by blast
  then show ?thesis by auto
qed

theorem insert_frida_lib_missing_companion_witness:
  "truthy (Some ''gadget.config'')
   \<and> stat planned_tree (os_path_join ''/tmp/app/lib/x86'' DEFAULT_CONFIG_NAME)
       = Inl FileNotFoundError
   \<and> (\<exists>fs'. insert_frida_lib_loop planned_tree [''/tmp/app/lib/x86''] ''frida-gadget-x86.so''
               (Some ''gadget.config'') None = Inl (FileNotFoundError, fs')
             \<and> no_new_entries planned_tree fs')
   \<and> (case insert_frida_lib fresh_tree ''/tmp/app'' ''frida-gadget-x86.so''
              (Some ''gadget.config'') None of
         Inl (e, fs') \<Rightarrow>
           e = FileNotFoundError
           \<and> stat fs' ''/tmp/app/lib/x86'' = Inr Dir
           \<and> stat fs' ''/tmp/app/lib/x86/libfrida-gadget.so'' = Inl FileNotFoundError
       | Inr r \<Rightarrow> False)"
proof -
  have t: "truthy (Some ''gadget.config'')" by code_simp
  have m: "stat planned_tree (os_path_join ''/tmp/app/lib/x86'' DEFAULT_CONFIG_NAME)
             = Inl FileNotFoundError" by code_simp
  have f: "case insert_frida_lib fresh_tree ''/tmp/app'' ''frida-gadget-x86.so''
              (Some ''gadget.config'') None of
         Inl (e, fs') \<Rightarrow>
           e = FileNotFoundError
           \<and> stat fs' ''/tmp/app/lib/x86'' = Inr Dir
           \<and> stat fs' ''/tmp/app/lib/x86/libfrida-gadget.so'' = Inl FileNotFoundError
       | Inr r \<Rightarrow> False" by code_simp
  from insert_frida_lib_missing_companion[OF disjI1[OF t] disjI1[OF m], of "[]"]
  show ?thesis using t m f by blast
qed

text \<open>
  Claim C10. After every successful run, every planned directory holds the payload as
  \<^verbatim>\<open>libfrida-gadget.so\<close> and, when a script is given, the script as \<^verbatim>\<open>libhook.js.so\<close>.
  The source derives the script's target by replacing \<^verbatim>\<open>libfrida-gadget.so\<close> in the
  whole target path, so in a tree whose own path contains that name the script is copied
  into another tree: the run succeeds, the planned directory has the payload and no
  \<^verbatim>\<open>libhook.js.so\<close>.
\<close>

theorem insert_frida_lib_hookfile_outside_planned_folder:
  "(case create_lib_arch_folders named_tree ''/tmp/libfrida-gadget.so.d'' (Some ARCH_X86) of
      Inl e \<Rightarrow> False
    | Inr (folders, fs') \<Rightarrow> folders = [''/tmp/libfrida-gadget.so.d/lib/x86''])
   \<and> (case insert_frida_lib named_tree ''/tmp/libfrida-gadget.so.d'' ''frida-gadget-x86.so''
              None (Some ''hook.js'') of
         Inl e \<Rightarrow> False
       | Inr (ok, fs') \<Rightarrow>
           ok
           \<and> stat fs' ''/tmp/libfrida-gadget.so.d/lib/x86/libfrida-gadget.so''
               = Inr (File ''GADGET'')
           \<and> stat fs' ''/tmp/libfrida-gadget.so.d/lib/x86/libhook.js.so''
               = Inl FileNotFoundError
           \<and> stat fs' ''/tmp/libhook.js.so.d/lib/x86/libhook.js.so'' = Inr (File ''HOOK''))"
  by code_simp


section \<open>The claim about the manifest permission injector\<close>

text \<open>
  Claim C8. When the manifest text contains \<^verbatim>\<open><manifest \<close> and a \<^verbatim>\<open>>\<close> at or after it, the
  injector puts one line break, four spaces and the declaration
  \<^verbatim>\<open><uses-permission android:name="..."/>\<close> right after that first closing bracket and
  keeps everything before and after it; when either is absent it returns \<^verbatim>\<open>False\<close> and
  the text stays as it is.
\<close>

theorem inject_permission_manifest_splice:
  assumes s: "start = py_find0 content ''<manifest ''"
      and e: "e = py_find_from content ''>'' start"
  shows "(start \<noteq> - 1 \<and> e \<noteq> - 1 \<longrightarrow>
            (\<exists>pre post.
               content = pre @ ''>'' @ post \<and> int (length pre) = e \<and> start \<le> e
               \<and> inject_permission_manifest content permission =
                   (None,
                    pre @ ''>'' @ ''\<newline>''
                    @ ''    <uses-permission android:name=\"'' @ permission @ ''\"/>''
                    @ post)))
       \<and> (start = - 1 \<or> e = - 1 \<longrightarrow>
            inject_permission_manifest content permission = (Some False, content))"
proof (intro conjI impI)
  assume "start = - 1 \<or> e = - 1"
  then show "inject_permission_manifest content permission = (Some False, content)"
    using s e by (auto simp: inject_permission_manifest_def Let_def)
next
  assume ok: "start \<noteq> - 1 \<and> e \<noteq> - 1"
  have s0: "0 \<le> start" using ok s py_find0_nonneg by simp
  have "py_find content ''>'' start (int (length content)) \<noteq> - 1"
    using ok e by (simp add: py_find_from_def)
  from py_find_found[OF s0 _ this]
  obtain k where k: "e = int k" "start \<le> int k" "occurs ''>'' content k (int (length content))"
    using e by (auto simp: py_find_from_def)
  let ?pre = "take k content" and ?post = "drop (k + length ''>'') content"
  note sp = splice_after_marker[OF k(3)]
  have run: "inject_permission_manifest content permission =
      (None, py_slice_to content (e + 1) @ ''\<newline>'' @ ''    '' @ permission_tag permission
             @ py_slice_from content (e + 1))"
    using ok s e by (simp add: inject_permission_manifest_def Let_def)
  have "inject_permission_manifest content permission =
      (None, ?pre @ ''>'' @ ''\<newline>'' @ ''    '' @ permission_tag permission @ ?post)"
    unfolding run k(1) using sp(3) sp(4) by simp
  moreover have "content = ?pre @ ''>'' @ ?post" by (rule sp(1))
  moreover have "int (length ?pre) = e" using sp(2) k(1) by simp
  ultimately show "\<exists>pre post.
               content = pre @ ''>'' @ post \<and> int (length pre) = e \<and> start \<le> e
               \<and> inject_permission_manifest content permission =
                   (None,
                    pre @ ''>'' @ ''\<newline>''
                    @ ''    <uses-permission android:name=\"'' @ permission @ ''\"/>''
                    @ post)"
    using k(1,2) unfolding permission_tag_def
    by (intro exI[of _ ?pre] exI[of _ ?post]) simp
qed

theorem inject_permission_manifest_splice_witness:
  "py_find0 example_manifest ''<manifest '' = 22
   \<and> py_find_from example_manifest ''>'' 22 = 90
   \<and> (\<exists>pre post.
         example_manifest = pre @ ''>'' @ post \<and> int (length pre) = 90
         \<and> inject_permission_manifest example_manifest INTERNET_PERMISSION =
             (None,
              pre @ ''>'' @ ''\<newline>''
              @ ''    <uses-permission android:name=\"'' @ INTERNET_PERMISSION @ ''\"/>''
              @ post))
   \<and> py_find0 ''<manifest-less/>'' ''<manifest '' = - 1
   \<and> inject_permission_manifest ''<manifest-less/>'' INTERNET_PERMISSION
       = (Some False, ''<manifest-less/>'')"
proof -
  have s: "py_find0 example_manifest ''<manifest '' = 22" by code_simp
  have e: "py_find_from example_manifest ''>'' 22 = 90" by code_simp
  have n: "py_find0 ''<manifest-less/>'' ''<manifest '' = - 1" by code_simp
  from inject_permission_manifest_splice[OF s[symmetric] e[symmetric], of INTERNET_PERMISSION]
       inject_permission_manifest_splice[OF n[symmetric] refl, of INTERNET_PERMISSION]
  show ?thesis using s e n by auto
qed


end
